theory Spec2Isabelle
  imports Complex_Main
begin

section \<open>SQL values and three-valued logic\<close>

text \<open>
  The migration (the second half of \<^verbatim>\<open>src/frontend/src/App.js\<close>) declares six tables,
  their constraints, their row-level security policies and two triggers. A \<^verbatim>\<open>UUID\<close> is
  identified with its canonical text, so that the cast \<^verbatim>\<open>auth.uid()::text\<close> of the storage
  policies is the selector \<open>uuid_text\<close>. A \<^verbatim>\<open>DATE\<close> is a (year, month, day) triple and a
  timestamp a number. A nullable column is an \<open>option\<close> (\<open>None\<close> is \<^verbatim>\<open>NULL\<close>); an SQL
  boolean is a \<open>bool option\<close>, and a policy admits a row only where its expression is
  \<open>Some True\<close>.
\<close>

datatype uuid = UUID (uuid_text: string)

type_synonym sql_date = "nat \<times> nat \<times> nat"

type_synonym timestamptz = nat

type_synonym sql_bool = "bool option"

fun sql_eq :: "'a option \<Rightarrow> 'a option \<Rightarrow> sql_bool" where
  "sql_eq (Some a) (Some b) = Some (a = b)"
| "sql_eq _ _ = None"

fun sql_or :: "sql_bool \<Rightarrow> sql_bool \<Rightarrow> sql_bool" where
  "sql_or (Some True) _ = Some True"
| "sql_or _ (Some True) = Some True"
| "sql_or (Some False) (Some False) = Some False"
| "sql_or _ _ = None"

fun sql_and :: "sql_bool \<Rightarrow> sql_bool \<Rightarrow> sql_bool" where
  "sql_and (Some False) _ = Some False"
| "sql_and _ (Some False) = Some False"
| "sql_and (Some True) (Some True) = Some True"
| "sql_and _ _ = None"

text \<open>\<^verbatim>\<open>x IN (SELECT ...)\<close> over the values the subquery returns.\<close>

definition sql_in :: "'a option \<Rightarrow> 'a option list \<Rightarrow> sql_bool" where
  "sql_in x ys = foldr (\<lambda>y acc. sql_or (sql_eq x y) acc) ys (Some False)"

text \<open>\<^verbatim>\<open>x = ANY(arr)\<close>: \<^verbatim>\<open>NULL\<close> for a \<^verbatim>\<open>NULL\<close> array, else as \<open>sql_in\<close> over its elements.\<close>

definition sql_any :: "'a option \<Rightarrow> 'a option list option \<Rightarrow> sql_bool" where
  "sql_any x arr = (case arr of None \<Rightarrow> None | Some ys \<Rightarrow> sql_in x ys)"

text \<open>\<^verbatim>\<open>arr[1]\<close>: the first element, \<^verbatim>\<open>NULL\<close> when the array is empty.\<close>

definition sql_first :: "'a list \<Rightarrow> 'a option" where
  "sql_first xs = (case xs of [] \<Rightarrow> None | x # _ \<Rightarrow> Some x)"

section \<open>The schema\<close>

text \<open>One record per table, one field per column, in the order of the migration.\<close>

record profile =
  p_id :: uuid
  p_email :: string
  p_full_name :: "string option"
  p_invite_code :: "string option"
  p_partner_id :: "uuid option"
  p_allow_read_receipts :: "bool option"
  p_created_at :: "timestamptz option"
  p_updated_at :: "timestamptz option"

record journal_entry =
  je_id :: uuid
  je_user_id :: uuid
  je_content :: string
  je_date :: sql_date
  je_mood :: "string option"
  je_audio_url :: "string option"
  je_shared_with :: "uuid option list option"
  je_created_at :: "timestamptz option"
  je_updated_at :: "timestamptz option"

record mood_entry =
  me_id :: uuid
  me_user_id :: uuid
  me_mood :: string
  me_date :: sql_date
  me_shared_with :: "uuid option list option"
  me_created_at :: "timestamptz option"

record shared_reflection =
  sr_id :: uuid
  sr_date :: sql_date
  sr_user_ids :: "uuid option list"
  sr_reflection :: string
  sr_created_at :: "timestamptz option"

record entry_access_log =
  al_id :: uuid
  al_entry_id :: uuid
  al_entry_type :: string
  al_accessed_by :: uuid
  al_entry_owner :: uuid
  al_accessed_at :: "timestamptz option"

record private_note =
  pn_id :: uuid
  pn_user_id :: uuid
  pn_entry_id :: uuid
  pn_entry_type :: string
  pn_note_content :: string
  pn_created_at :: "timestamptz option"
  pn_updated_at :: "timestamptz option"

text \<open>
  A row of the platform's \<^verbatim>\<open>storage.objects\<close>: the columns the policies of the migration
  read.
\<close>

record storage_object =
  so_id :: uuid
  so_bucket_id :: "string option"
  so_name :: "string option"

record db =
  profiles :: "profile list"
  journal_entries :: "journal_entry list"
  mood_entries :: "mood_entry list"
  shared_reflections :: "shared_reflection list"
  entry_access_logs :: "entry_access_log list"
  private_notes :: "private_note list"
  storage_objects :: "storage_object list"

section \<open>Row-level security\<close>

text \<open>
  The requester of a statement: \<^verbatim>\<open>auth.uid()\<close> (\<^verbatim>\<open>NULL\<close> when nobody is signed in) and
  \<^verbatim>\<open>auth.role()\<close>.
\<close>

record requester =
  auth_uid :: "uuid option"
  auth_role :: string

datatype command = Select | Insert | Update | Delete

text \<open>
  A \<^verbatim>\<open>CREATE POLICY\<close> of the migration: its name, its command (\<open>None\<close> is
  \<^verbatim>\<open>FOR ALL\<close>), its one expression, and the relations that the subqueries of the
  expression read. Every policy of the migration has exactly one expression: \<^verbatim>\<open>USING\<close> for
  select, update, delete and all, \<^verbatim>\<open>WITH CHECK\<close> for insert. PostgreSQL applies a \<^verbatim>\<open>USING\<close>
  expression that stands alone to the new row of an update or insert as well.
\<close>

record 'r policy =
  pol_name :: string
  pol_cmd :: "command option"
  pol_reads :: "string list"
  pol_expr :: "requester \<Rightarrow> db \<Rightarrow> 'r \<Rightarrow> sql_bool"

text \<open>
  All policies of the migration are permissive: with row-level security enabled on the
  table, a command on a row is permitted when some policy for that command (or for all)
  evaluates to true on it, and refused when none does, in particular when the table has no
  policy for the command.
\<close>

definition policy_applies :: "'r policy \<Rightarrow> command \<Rightarrow> bool" where
  "policy_applies p c = (case pol_cmd p of None \<Rightarrow> True | Some c' \<Rightarrow> c' = c)"

definition permits :: "'r policy list \<Rightarrow> command \<Rightarrow> requester \<Rightarrow> db \<Rightarrow> 'r \<Rightarrow> bool" where
  "permits pols c rq d r =
     list_ex (\<lambda>p. policy_applies p c \<and> pol_expr p rq d r = Some True) pols"

text \<open>The relations read by the subqueries of the policies that apply to a command.\<close>

definition reads_for :: "command \<Rightarrow> 'r policy list \<Rightarrow> string list" where
  "reads_for c pols = concat (map pol_reads (filter (\<lambda>p. policy_applies p c) pols))"

subsection \<open>Subqueries of the policies\<close>

text \<open>
  \<^verbatim>\<open>SELECT partner_id FROM profiles WHERE id = auth.uid()\<close>, as the two policies that
  contain it write it, evaluated on the rows of \<^verbatim>\<open>profiles\<close>. The subquery is itself a select
  on \<^verbatim>\<open>profiles\<close> by the requester, so PostgreSQL puts it under the select policy of
  \<^verbatim>\<open>profiles\<close>, which contains this same subquery: the query rewriter (\<open>rewrite\<close> below)
  refuses every statement that would have to evaluate it, and no statement of this model
  ever does.
\<close>

definition partner_ids_of :: "requester \<Rightarrow> db \<Rightarrow> uuid option list" where
  "partner_ids_of rq d =
     map p_partner_id
       (filter (\<lambda>p. sql_eq (Some (p_id p)) (auth_uid rq) = Some True) (profiles d))"

text \<open>
  \<^verbatim>\<open>storage.foldername(name)\<close> is the platform's: the segments of the object's path
  between slashes, without the last one (the file name).
\<close>

fun split_path :: "string \<Rightarrow> string \<Rightarrow> string list" where
  "split_path acc [] = [rev acc]"
| "split_path acc (c # cs) =
     (if c = CHR ''/'' then rev acc # split_path [] cs else split_path (c # acc) cs)"

definition storage_foldername :: "string \<Rightarrow> string list" where
  "storage_foldername n = butlast (split_path [] n)"

text \<open>\<^verbatim>\<open>(storage.foldername(name))[1]\<close>\<close>

definition folder1 :: "storage_object \<Rightarrow> string option" where
  "folder1 ob = (case so_name ob of None \<Rightarrow> None | Some n \<Rightarrow> sql_first (storage_foldername n))"

subsection \<open>The policies of the migration\<close>

definition profiles_policies :: "profile policy list" where
  "profiles_policies =
    [\<lparr>pol_name = ''Users can view own and partner profile'', pol_cmd = Some Select,
      pol_reads = [''profiles''],
      pol_expr = (\<lambda>rq d r.
        sql_or
          (sql_or (sql_eq (auth_uid rq) (Some (p_id r))) (sql_eq (auth_uid rq) (p_partner_id r)))
          (sql_in (Some (p_id r)) (partner_ids_of rq d)))\<rparr>,
     \<lparr>pol_name = ''Users can update own profile'', pol_cmd = Some Update,
      pol_reads = [],
      pol_expr = (\<lambda>rq d r. sql_eq (auth_uid rq) (Some (p_id r)))\<rparr>,
     \<lparr>pol_name = ''Users can insert own profile'', pol_cmd = Some Insert,
      pol_reads = [],
      pol_expr = (\<lambda>rq d r. sql_eq (auth_uid rq) (Some (p_id r)))\<rparr>]"

definition journal_entries_policies :: "journal_entry policy list" where
  "journal_entries_policies =
    [\<lparr>pol_name = ''Users can view own and shared journal entries'', pol_cmd = Some Select,
      pol_reads = [],
      pol_expr = (\<lambda>rq d r.
        sql_or (sql_eq (auth_uid rq) (Some (je_user_id r)))
               (sql_any (auth_uid rq) (je_shared_with r)))\<rparr>,
     \<lparr>pol_name = ''Users can insert own journal entries'', pol_cmd = Some Insert,
      pol_reads = [],
      pol_expr = (\<lambda>rq d r. sql_eq (auth_uid rq) (Some (je_user_id r)))\<rparr>,
     \<lparr>pol_name = ''Users can update own journal entries'', pol_cmd = Some Update,
      pol_reads = [],
      pol_expr = (\<lambda>rq d r. sql_eq (auth_uid rq) (Some (je_user_id r)))\<rparr>,
     \<lparr>pol_name = ''Users can delete own journal entries'', pol_cmd = Some Delete,
      pol_reads = [],
      pol_expr = (\<lambda>rq d r. sql_eq (auth_uid rq) (Some (je_user_id r)))\<rparr>]"

definition mood_entries_policies :: "mood_entry policy list" where
  "mood_entries_policies =
    [\<lparr>pol_name = ''Users can view own and shared mood entries'', pol_cmd = Some Select,
      pol_reads = [],
      pol_expr = (\<lambda>rq d r.
        sql_or (sql_eq (auth_uid rq) (Some (me_user_id r)))
               (sql_any (auth_uid rq) (me_shared_with r)))\<rparr>,
     \<lparr>pol_name = ''Users can insert own mood entries'', pol_cmd = Some Insert,
      pol_reads = [],
      pol_expr = (\<lambda>rq d r. sql_eq (auth_uid rq) (Some (me_user_id r)))\<rparr>,
     \<lparr>pol_name = ''Users can update own mood entries'', pol_cmd = Some Update,
      pol_reads = [],
      pol_expr = (\<lambda>rq d r. sql_eq (auth_uid rq) (Some (me_user_id r)))\<rparr>,
     \<lparr>pol_name = ''Users can delete own mood entries'', pol_cmd = Some Delete,
      pol_reads = [],
      pol_expr = (\<lambda>rq d r. sql_eq (auth_uid rq) (Some (me_user_id r)))\<rparr>]"

definition shared_reflections_policies :: "shared_reflection policy list" where
  "shared_reflections_policies =
    [\<lparr>pol_name = ''Users can view reflections that include them'', pol_cmd = Some Select,
      pol_reads = [],
      pol_expr = (\<lambda>rq d r. sql_any (auth_uid rq) (Some (sr_user_ids r)))\<rparr>,
     \<lparr>pol_name = ''Service role can manage reflections'', pol_cmd = None,
      pol_reads = [],
      pol_expr = (\<lambda>rq d r. Some (auth_role rq = ''service_role''))\<rparr>]"

definition entry_access_logs_policies :: "entry_access_log policy list" where
  "entry_access_logs_policies =
    [\<lparr>pol_name = ''Users can view relevant access logs'', pol_cmd = Some Select,
      pol_reads = [],
      pol_expr = (\<lambda>rq d r.
        sql_or (sql_eq (auth_uid rq) (Some (al_entry_owner r)))
               (sql_eq (auth_uid rq) (Some (al_accessed_by r))))\<rparr>,
     \<lparr>pol_name = ''Users can insert access logs'', pol_cmd = Some Insert,
      pol_reads = [],
      pol_expr = (\<lambda>rq d r. sql_eq (auth_uid rq) (Some (al_accessed_by r)))\<rparr>]"

definition private_notes_policies :: "private_note policy list" where
  "private_notes_policies =
    [\<lparr>pol_name = ''Users can view own private notes'', pol_cmd = Some Select,
      pol_reads = [],
      pol_expr = (\<lambda>rq d r. sql_eq (auth_uid rq) (Some (pn_user_id r)))\<rparr>,
     \<lparr>pol_name = ''Users can insert own private notes'', pol_cmd = Some Insert,
      pol_reads = [],
      pol_expr = (\<lambda>rq d r. sql_eq (auth_uid rq) (Some (pn_user_id r)))\<rparr>,
     \<lparr>pol_name = ''Users can update own private notes'', pol_cmd = Some Update,
      pol_reads = [],
      pol_expr = (\<lambda>rq d r. sql_eq (auth_uid rq) (Some (pn_user_id r)))\<rparr>,
     \<lparr>pol_name = ''Users can delete own private notes'', pol_cmd = Some Delete,
      pol_reads = [],
      pol_expr = (\<lambda>rq d r. sql_eq (auth_uid rq) (Some (pn_user_id r)))\<rparr>]"

text \<open>\<^verbatim>\<open>auth.uid()::text\<close>\<close>

definition auth_uid_text :: "requester \<Rightarrow> string option" where
  "auth_uid_text rq = map_option uuid_text (auth_uid rq)"

definition storage_objects_policies :: "storage_object policy list" where
  "storage_objects_policies =
    [\<lparr>pol_name = ''Users can upload own audio files'', pol_cmd = Some Insert,
      pol_reads = [],
      pol_expr = (\<lambda>rq d r.
        sql_and (sql_eq (so_bucket_id r) (Some ''audio-journal''))
                (sql_eq (auth_uid_text rq) (folder1 r)))\<rparr>,
     \<lparr>pol_name = ''Users can view own and partner audio files'', pol_cmd = Some Select,
      pol_reads = [''profiles''],
      pol_expr = (\<lambda>rq d r.
        sql_and (sql_eq (so_bucket_id r) (Some ''audio-journal''))
                (sql_or (sql_eq (auth_uid_text rq) (folder1 r))
                        (sql_in (folder1 r)
                           (map (map_option uuid_text) (partner_ids_of rq d)))))\<rparr>,
     \<lparr>pol_name = ''Users can update own audio files'', pol_cmd = Some Update,
      pol_reads = [],
      pol_expr = (\<lambda>rq d r.
        sql_and (sql_eq (so_bucket_id r) (Some ''audio-journal''))
                (sql_eq (auth_uid_text rq) (folder1 r)))\<rparr>,
     \<lparr>pol_name = ''Users can delete own audio files'', pol_cmd = Some Delete,
      pol_reads = [],
      pol_expr = (\<lambda>rq d r.
        sql_and (sql_eq (so_bucket_id r) (Some ''audio-journal''))
                (sql_eq (auth_uid_text rq) (folder1 r)))\<rparr>]"

section \<open>Tables, constraints and statements\<close>

datatype sql_error =
    Policy_recursion string
  | Rls_violation
  | Check_violation string
  | Unique_violation string
  | Foreign_key_violation string

text \<open>
  What the migration declares for a table: its name, where its rows live in the database,
  its policies, its \<^verbatim>\<open>CHECK\<close> constraints, its \<^verbatim>\<open>PRIMARY KEY\<close> and \<^verbatim>\<open>UNIQUE\<close> constraints
  (each as the test that two rows collide on it; two \<^verbatim>\<open>NULL\<close>s never collide) and its
  \<^verbatim>\<open>BEFORE UPDATE\<close> trigger, which receives \<^verbatim>\<open>NOW()\<close>. \<^verbatim>\<open>NOT NULL\<close> is in the field types
  of the records.
\<close>

record 'r table_def =
  td_name :: string
  td_rows :: "db \<Rightarrow> 'r list"
  td_put :: "'r list \<Rightarrow> db \<Rightarrow> db"
  td_policies :: "'r policy list"
  td_checks :: "(string \<times> ('r \<Rightarrow> bool)) list"
  td_uniques :: "(string \<times> ('r \<Rightarrow> 'r \<Rightarrow> bool)) list"
  td_before_update :: "timestamptz \<Rightarrow> 'r \<Rightarrow> 'r"

definition entry_type_check :: "string \<Rightarrow> bool" where
  "entry_type_check t = (t = ''journal'' \<or> t = ''mood'')"

definition profiles_table :: "profile table_def" where
  "profiles_table =
    \<lparr>td_name = ''profiles'', td_rows = profiles, td_put = (\<lambda>rs d. d\<lparr>profiles := rs\<rparr>),
     td_policies = profiles_policies, td_checks = [],
     td_uniques =
       [(''profiles_pkey'', \<lambda>a b. p_id a = p_id b),
        (''profiles_email_key'', \<lambda>a b. p_email a = p_email b),
        (''profiles_invite_code_key'',
           \<lambda>a b. sql_eq (p_invite_code a) (p_invite_code b) = Some True)],
     td_before_update = (\<lambda>now r. r\<lparr>p_updated_at := Some now\<rparr>)\<rparr>"

definition journal_entries_table :: "journal_entry table_def" where
  "journal_entries_table =
    \<lparr>td_name = ''journal_entries'', td_rows = journal_entries, td_put = (\<lambda>rs d. d\<lparr>journal_entries := rs\<rparr>),
     td_policies = journal_entries_policies, td_checks = [],
     td_uniques =
       [(''journal_entries_pkey'', \<lambda>a b. je_id a = je_id b),
        (''journal_entries_user_id_date_key'',
           \<lambda>a b. je_user_id a = je_user_id b \<and> je_date a = je_date b)],
     td_before_update = (\<lambda>now r. r\<lparr>je_updated_at := Some now\<rparr>)\<rparr>"

definition mood_entries_table :: "mood_entry table_def" where
  "mood_entries_table =
    \<lparr>td_name = ''mood_entries'', td_rows = mood_entries, td_put = (\<lambda>rs d. d\<lparr>mood_entries := rs\<rparr>),
     td_policies = mood_entries_policies, td_checks = [],
     td_uniques =
       [(''mood_entries_pkey'', \<lambda>a b. me_id a = me_id b),
        (''mood_entries_user_id_date_key'',
           \<lambda>a b. me_user_id a = me_user_id b \<and> me_date a = me_date b)],
     td_before_update = (\<lambda>now r. r)\<rparr>"

definition shared_reflections_table :: "shared_reflection table_def" where
  "shared_reflections_table =
    \<lparr>td_name = ''shared_reflections'', td_rows = shared_reflections, td_put = (\<lambda>rs d. d\<lparr>shared_reflections := rs\<rparr>),
     td_policies = shared_reflections_policies, td_checks = [],
     td_uniques =
       [(''shared_reflections_pkey'', \<lambda>a b. sr_id a = sr_id b),
        (''shared_reflections_date_user_ids_key'',
           \<lambda>a b. sr_date a = sr_date b \<and> sr_user_ids a = sr_user_ids b)],
     td_before_update = (\<lambda>now r. r)\<rparr>"

definition entry_access_logs_table :: "entry_access_log table_def" where
  "entry_access_logs_table =
    \<lparr>td_name = ''entry_access_logs'', td_rows = entry_access_logs, td_put = (\<lambda>rs d. d\<lparr>entry_access_logs := rs\<rparr>),
     td_policies = entry_access_logs_policies,
     td_checks =
       [(''entry_access_logs_entry_type_check'', \<lambda>r. entry_type_check (al_entry_type r))],
     td_uniques = [(''entry_access_logs_pkey'', \<lambda>a b. al_id a = al_id b)],
     td_before_update = (\<lambda>now r. r)\<rparr>"

definition private_notes_table :: "private_note table_def" where
  "private_notes_table =
    \<lparr>td_name = ''private_notes'', td_rows = private_notes, td_put = (\<lambda>rs d. d\<lparr>private_notes := rs\<rparr>),
     td_policies = private_notes_policies,
     td_checks =
       [(''private_notes_entry_type_check'', \<lambda>r. entry_type_check (pn_entry_type r))],
     td_uniques =
       [(''private_notes_pkey'', \<lambda>a b. pn_id a = pn_id b),
        (''private_notes_user_id_entry_id_entry_type_key'',
           \<lambda>a b. pn_user_id a = pn_user_id b \<and> pn_entry_id a = pn_entry_id b
                  \<and> pn_entry_type a = pn_entry_type b)],
     td_before_update = (\<lambda>now r. r\<lparr>pn_updated_at := Some now\<rparr>)\<rparr>"

definition storage_objects_table :: "storage_object table_def" where
  "storage_objects_table =
    \<lparr>td_name = ''storage.objects'', td_rows = storage_objects, td_put = (\<lambda>rs d. d\<lparr>storage_objects := rs\<rparr>),
     td_policies = storage_objects_policies, td_checks = [],
     td_uniques = [(''objects_pkey'', \<lambda>a b. so_id a = so_id b)],
     td_before_update = (\<lambda>now r. r)\<rparr>"

subsection \<open>Foreign keys\<close>

text \<open>
  Every \<^verbatim>\<open>REFERENCES profiles(id)\<close> of the migration, as a test of the database a statement
  would leave. PostgreSQL tests the rows the statement wrote; on a database that satisfied
  its foreign keys before the statement the two tests agree. The references are
  \<^verbatim>\<open>ON DELETE CASCADE\<close>, which acts when a profile is deleted: \<^verbatim>\<open>profiles\<close> has no delete
  policy, so no delete under the policies removes a profile and the cascade never runs
  here. (\<^verbatim>\<open>profiles.id REFERENCES auth.users(id)\<close> points into the platform's user table,
  which is not part of the database modelled here.)
\<close>

definition profile_exists :: "db \<Rightarrow> uuid \<Rightarrow> bool" where
  "profile_exists d u = (u \<in> set (map p_id (profiles d)))"

definition foreign_keys :: "(string \<times> (db \<Rightarrow> bool)) list" where
  "foreign_keys =
    [(''profiles_partner_id_fkey'',
        \<lambda>d. list_all (\<lambda>p. case p_partner_id p of None \<Rightarrow> True | Some u \<Rightarrow> profile_exists d u)
               (profiles d)),
     (''journal_entries_user_id_fkey'',
        \<lambda>d. list_all (\<lambda>r. profile_exists d (je_user_id r)) (journal_entries d)),
     (''mood_entries_user_id_fkey'',
        \<lambda>d. list_all (\<lambda>r. profile_exists d (me_user_id r)) (mood_entries d)),
     (''entry_access_logs_accessed_by_fkey'',
        \<lambda>d. list_all (\<lambda>r. profile_exists d (al_accessed_by r)) (entry_access_logs d)),
     (''entry_access_logs_entry_owner_fkey'',
        \<lambda>d. list_all (\<lambda>r. profile_exists d (al_entry_owner r)) (entry_access_logs d)),
     (''private_notes_user_id_fkey'',
        \<lambda>d. list_all (\<lambda>r. profile_exists d (pn_user_id r)) (private_notes d))]"

subsection \<open>The query rewriter\<close>

text \<open>
  Before a statement runs, PostgreSQL adds the expressions of the policies that apply to it
  to the query. When these expressions contain subqueries, it marks the relation as being
  expanded and expands the subqueries in turn, each a select on the relation it reads; a
  relation that comes up again while it is being expanded ends the statement with the error
  \<^verbatim>\<open>infinite recursion detected in policy for relation\<close> (42P17), whatever the rows of the
  tables are.

  \<open>relation_reads\<close> lists, for every relation of the migration, the relations that the
  subqueries of its select policies read.
\<close>

definition relation_reads :: "(string \<times> string list) list" where
  "relation_reads =
    [(td_name profiles_table, reads_for Select (td_policies profiles_table)),
     (td_name journal_entries_table, reads_for Select (td_policies journal_entries_table)),
     (td_name mood_entries_table, reads_for Select (td_policies mood_entries_table)),
     (td_name shared_reflections_table, reads_for Select (td_policies shared_reflections_table)),
     (td_name entry_access_logs_table, reads_for Select (td_policies entry_access_logs_table)),
     (td_name private_notes_table, reads_for Select (td_policies private_notes_table)),
     (td_name storage_objects_table, reads_for Select (td_policies storage_objects_table))]"

definition select_reads_of :: "string \<Rightarrow> string list" where
  "select_reads_of t = (case map_of relation_reads t of None \<Rightarrow> [] | Some rs \<Rightarrow> rs)"

fun first_some :: "'a option list \<Rightarrow> 'a option" where
  "first_some [] = None"
| "first_some (Some x # xs) = Some x"
| "first_some (None # xs) = first_some xs"

text \<open>
  The expansion of a select on the relation \<open>t\<close> inside a subquery, \<open>active\<close> being the
  relations under expansion: the name of the relation on which the recursion is detected,
  if it is.
\<close>

function expand_rel :: "string list \<Rightarrow> string \<Rightarrow> string option" where
  "expand_rel active t =
     (if select_reads_of t = [] then None
      else if t \<in> set active then Some t
      else first_some (map (expand_rel (t # active)) (select_reads_of t)))"
  by pat_completeness auto
termination
proof (relation "measure (\<lambda>(active, t). card (set (map fst relation_reads) - set active))")
  show "wf (measure (\<lambda>(active, t). card (set (map fst relation_reads) - set active)))"
    by simp
next
  fix active :: "string list" and t x :: string
  assume r: "select_reads_of t \<noteq> []" and n: "t \<notin> set active"
  from r obtain rs where "map_of relation_reads t = Some rs"
    by (cases "map_of relation_reads t") (auto simp: select_reads_of_def)
  then have "(t, rs) \<in> set relation_reads"
    by (rule map_of_SomeD)
  then have "t \<in> set (map fst relation_reads)"
    by force
  with n have "set (map fst relation_reads) - set (t # active)
                 \<subset> set (map fst relation_reads) - set active"
    by auto
  then have "card (set (map fst relation_reads) - set (t # active))
               < card (set (map fst relation_reads) - set active)"
    by (intro psubset_card_mono) simp_all
  then show "((t # active, x), (active, t))
               \<in> measure (\<lambda>(active, t). card (set (map fst relation_reads) - set active))"
    by simp
qed

declare expand_rel.simps [simp del]

text \<open>
  The rewriting of a statement on the table \<open>td\<close> to which the policies of the commands
  \<open>cs\<close> apply.
\<close>

definition rewrite :: "'r table_def \<Rightarrow> command list \<Rightarrow> string option" where
  "rewrite td cs =
     first_some (map (expand_rel [td_name td])
       (concat (map (\<lambda>c. reads_for c (td_policies td)) cs)))"

subsection \<open>Statements\<close>

text \<open>The name of the first constraint of a list that is violated.\<close>

definition first_violation :: "(string \<times> 'c) list \<Rightarrow> ('c \<Rightarrow> bool) \<Rightarrow> string option" where
  "first_violation cs bad = map_option fst (find (\<lambda>nc. bad (snd nc)) cs)"

text \<open>
  \<^verbatim>\<open>INSERT\<close> of one row, in PostgreSQL's order: the rewriting, the policies' check on the
  new row, the \<^verbatim>\<open>CHECK\<close> constraints, the unique indexes against the rows already there,
  then the foreign keys. \<open>insert_unrestricted\<close> is the insert of a role the policies do not
  apply to (the owner of the table, as in a \<^verbatim>\<open>SECURITY DEFINER\<close> function of the
  migration). Both take the row as the \<^verbatim>\<open>BEFORE INSERT\<close> triggers of the table leave it;
  \<^verbatim>\<open>profiles\<close> is the one table that has such a trigger, and an insert into it by a
  requester is \<open>insert_profile\<close> below.
\<close>

definition insert_unrestricted :: "'r table_def \<Rightarrow> 'r \<Rightarrow> db \<Rightarrow> sql_error + db" where
  "insert_unrestricted td r d =
    (case first_violation (td_checks td) (\<lambda>c. \<not> c r) of
       Some n \<Rightarrow> Inl (Check_violation n)
     | None \<Rightarrow>
      (case first_violation (td_uniques td) (\<lambda>c. list_ex (c r) (td_rows td d)) of
         Some n \<Rightarrow> Inl (Unique_violation n)
       | None \<Rightarrow>
        (let d' = td_put td (td_rows td d @ [r]) d in
         case first_violation foreign_keys (\<lambda>c. \<not> c d') of
           Some n \<Rightarrow> Inl (Foreign_key_violation n)
         | None \<Rightarrow> Inr d')))"

definition insert_row :: "'r table_def \<Rightarrow> requester \<Rightarrow> 'r \<Rightarrow> db \<Rightarrow> sql_error + db" where
  "insert_row td rq r d =
    (case rewrite td [Insert] of
       Some t \<Rightarrow> Inl (Policy_recursion t)
     | None \<Rightarrow>
        (if \<not> permits (td_policies td) Insert rq d r then Inl Rls_violation
         else insert_unrestricted td r d))"

text \<open>
  \<^verbatim>\<open>SELECT * FROM t WHERE w\<close>: the rows a select policy admits, filtered by \<open>w\<close>, or the
  error of the rewriter. \<open>returned\<close> is what the requester gets to see: no row when the
  statement fails.
\<close>

definition select_rows ::
  "'r table_def \<Rightarrow> requester \<Rightarrow> ('r \<Rightarrow> bool) \<Rightarrow> db \<Rightarrow> sql_error + 'r list"
where
  "select_rows td rq w d =
    (case rewrite td [Select] of
       Some t \<Rightarrow> Inl (Policy_recursion t)
     | None \<Rightarrow> Inr (filter (\<lambda>r. permits (td_policies td) Select rq d r \<and> w r) (td_rows td d)))"

definition returned :: "sql_error + 'r list \<Rightarrow> 'r list" where
  "returned res = (case res of Inl e \<Rightarrow> [] | Inr rows \<Rightarrow> rows)"

text \<open>
  An update or a delete of this model has a condition \<open>w\<close> on the row (its \<^verbatim>\<open>WHERE\<close>
  clause), and an update an assignment \<open>f\<close> that may compute the new row from the old one.
  Such a statement reads the table, so PostgreSQL applies the select policies of the table
  as well as the update or delete policies: to the rewriting, to the rows the statement
  touches and to the new rows of an update. (A statement that names no column of the table
  at all is outside what \<open>update_rows\<close> and \<open>delete_rows\<close> model.)

  \<^verbatim>\<open>DELETE FROM t WHERE w\<close>: the rows that the policies admit and \<open>w\<close> selects are removed;
  the others stay, silently.
\<close>

definition delete_rows :: "'r table_def \<Rightarrow> requester \<Rightarrow> ('r \<Rightarrow> bool) \<Rightarrow> db \<Rightarrow> sql_error + db" where
  "delete_rows td rq w d =
    (case rewrite td [Delete, Select] of
       Some t \<Rightarrow> Inl (Policy_recursion t)
     | None \<Rightarrow>
        Inr (td_put td
          (filter (\<lambda>r. \<not> (permits (td_policies td) Delete rq d r
                          \<and> permits (td_policies td) Select rq d r \<and> w r))
             (td_rows td d)) d))"

text \<open>
  \<^verbatim>\<open>UPDATE t SET ... WHERE w\<close> goes through the table row by row, \<open>done\<close> being the rows
  already passed (as the statement leaves them) and the list argument the rows still to
  come. A row that the policies admit and \<open>w\<close> selects is rewritten by \<open>f\<close> and the
  \<^verbatim>\<open>BEFORE UPDATE\<close> trigger; the new row must pass the policies, then the \<^verbatim>\<open>CHECK\<close>
  constraints, then the unique indexes against every other row as the table stands at that
  moment, and the first failure ends the statement.
\<close>

fun update_scan ::
  "'r table_def \<Rightarrow> requester \<Rightarrow> timestamptz \<Rightarrow> ('r \<Rightarrow> bool) \<Rightarrow> ('r \<Rightarrow> 'r) \<Rightarrow> db
     \<Rightarrow> 'r list \<Rightarrow> 'r list \<Rightarrow> sql_error + 'r list"
where
  "update_scan td rq now w f d done [] = Inr done"
| "update_scan td rq now w f d done (r # todo) =
    (if permits (td_policies td) Update rq d r \<and> permits (td_policies td) Select rq d r \<and> w r
     then
       (let r' = td_before_update td now (f r) in
        if \<not> (permits (td_policies td) Update rq d r' \<and> permits (td_policies td) Select rq d r')
        then Inl Rls_violation
        else case first_violation (td_checks td) (\<lambda>c. \<not> c r') of
          Some n \<Rightarrow> Inl (Check_violation n)
        | None \<Rightarrow>
           (case first_violation (td_uniques td) (\<lambda>c. list_ex (c r') (done @ todo)) of
              Some n \<Rightarrow> Inl (Unique_violation n)
            | None \<Rightarrow> update_scan td rq now w f d (done @ [r']) todo))
     else update_scan td rq now w f d (done @ [r]) todo)"

text \<open>The whole update: the rewriting, the scan, and the foreign keys at the end.\<close>

definition update_rows ::
  "'r table_def \<Rightarrow> requester \<Rightarrow> timestamptz \<Rightarrow> ('r \<Rightarrow> bool) \<Rightarrow> ('r \<Rightarrow> 'r) \<Rightarrow> db \<Rightarrow> sql_error + db"
where
  "update_rows td rq now w f d =
    (case rewrite td [Update, Select] of
       Some t \<Rightarrow> Inl (Policy_recursion t)
     | None \<Rightarrow>
        (case update_scan td rq now w f d [] (td_rows td d) of
           Inl e \<Rightarrow> Inl e
         | Inr rows \<Rightarrow>
            (let d' = td_put td rows d in
             case first_violation foreign_keys (\<lambda>c. \<not> c d') of
               Some n \<Rightarrow> Inl (Foreign_key_violation n)
             | None \<Rightarrow> Inr d')))"

text \<open>A statement that fails leaves the database as it was.\<close>

definition exec :: "(db \<Rightarrow> sql_error + db) \<Rightarrow> db \<Rightarrow> sql_error option \<times> db" where
  "exec stmt d = (case stmt d of Inl e \<Rightarrow> (Some e, d) | Inr d' \<Rightarrow> (None, d'))"

section \<open>Invite codes\<close>

text \<open>
  \<^verbatim>\<open>random()\<close> is a source of draws, each a number \<open>r\<close> with \<open>0 \<le> r < 1\<close>: the sequence
  \<open>rnd\<close> and the position \<open>k\<close> of the next draw. \<^verbatim>\<open>substr(s, i, 1)\<close> is the character at
  the 1-based position \<open>i\<close>, or the empty string when there is none. The product and the sum
  of \<open>pick_char\<close> are those of the real numbers. The code computes them in \<^verbatim>\<open>float8\<close>, where
  a draw next to a multiple of \<open>1 / 36\<close> can round to the neighbouring position: which
  character a given draw picks may differ by one place, and the position stays within 1 to
  36 there as it does here.
\<close>

definition chars :: string where
  "chars = ''ABCDEFGHIJKLMNOPQRSTUVWXYZ0123456789''"

definition substr1 :: "string \<Rightarrow> int \<Rightarrow> string" where
  "substr1 s i = (if 1 \<le> i then take 1 (drop (nat (i - 1)) s) else [])"

definition pick_char :: "real \<Rightarrow> string" where
  "pick_char r = substr1 chars \<lfloor>r * real (length chars) + 1\<rfloor>"

fun generate_loop :: "nat \<Rightarrow> (nat \<Rightarrow> real) \<Rightarrow> nat \<Rightarrow> string \<Rightarrow> string \<times> nat" where
  "generate_loop 0 rnd k result = (result, k)"
| "generate_loop (Suc n) rnd k result = generate_loop n rnd (Suc k) (result @ pick_char (rnd k))"

definition generate_invite_code :: "(nat \<Rightarrow> real) \<Rightarrow> nat \<Rightarrow> string \<times> nat" where
  "generate_invite_code rnd k = generate_loop 8 rnd k []"

text \<open>\<^verbatim>\<open>EXISTS (SELECT 1 FROM profiles WHERE invite_code = c)\<close>\<close>

definition invite_code_taken :: "db \<Rightarrow> string \<Rightarrow> bool" where
  "invite_code_taken d c = list_ex (\<lambda>p. sql_eq (p_invite_code p) (Some c) = Some True) (profiles d)"

text \<open>
  The \<^verbatim>\<open>WHILE\<close> loop of \<^verbatim>\<open>set_invite_code\<close>. It has no bound, so it is a partial function:
  \<open>None\<close> is the loop that never ends.
\<close>

partial_function (option) regenerate ::
  "db \<Rightarrow> (nat \<Rightarrow> real) \<Rightarrow> nat \<Rightarrow> string \<Rightarrow> (string \<times> nat) option"
where
  "regenerate d rnd k code =
     (if invite_code_taken d code
      then regenerate d rnd (snd (generate_invite_code rnd k)) (fst (generate_invite_code rnd k))
      else Some (code, k))"

text \<open>
  The trigger function, on the row \<open>new\<close> about to be inserted. It runs before every insert
  into \<^verbatim>\<open>profiles\<close>; the row it returns is the row that is then inserted.
\<close>

definition set_invite_code ::
  "db \<Rightarrow> (nat \<Rightarrow> real) \<Rightarrow> nat \<Rightarrow> profile \<Rightarrow> (profile \<times> nat) option"
where
  "set_invite_code d rnd k new =
     (if p_invite_code new = None
      then map_option (\<lambda>ck. (new\<lparr>p_invite_code := Some (fst ck)\<rparr>, snd ck))
             (regenerate d rnd (snd (generate_invite_code rnd k)) (fst (generate_invite_code rnd k)))
      else Some (new, k))"

text \<open>
  \<open>regenerate\<close> and \<open>set_invite_code\<close> above are the trigger as \<^verbatim>\<open>handle_new_user\<close> runs it:
  that function is \<^verbatim>\<open>SECURITY DEFINER\<close>, so the query of the loop reads \<^verbatim>\<open>profiles\<close> as the
  owner of the table. The trigger function itself is not \<^verbatim>\<open>SECURITY DEFINER\<close>: when a
  requester inserts a profile, the query of the loop is a select on \<^verbatim>\<open>profiles\<close> by that
  requester, under the policies, and its failure is the failure of the insert.
\<close>

partial_function (option) regenerate_as ::
  "requester \<Rightarrow> db \<Rightarrow> (nat \<Rightarrow> real) \<Rightarrow> nat \<Rightarrow> string \<Rightarrow> (sql_error + string \<times> nat) option"
where
  "regenerate_as rq d rnd k code =
     (case select_rows profiles_table rq
             (\<lambda>p. sql_eq (p_invite_code p) (Some code) = Some True) d of
        Inl e \<Rightarrow> Some (Inl e)
      | Inr rows \<Rightarrow>
         (if rows \<noteq> []
          then regenerate_as rq d rnd (snd (generate_invite_code rnd k))
                 (fst (generate_invite_code rnd k))
          else Some (Inr (code, k))))"

definition set_invite_code_as ::
  "requester \<Rightarrow> db \<Rightarrow> (nat \<Rightarrow> real) \<Rightarrow> nat \<Rightarrow> profile \<Rightarrow> (sql_error + profile \<times> nat) option"
where
  "set_invite_code_as rq d rnd k new =
     (if p_invite_code new = None
      then map_option (map_sum id (\<lambda>ck. (new\<lparr>p_invite_code := Some (fst ck)\<rparr>, snd ck)))
             (regenerate_as rq d rnd (snd (generate_invite_code rnd k))
                (fst (generate_invite_code rnd k)))
      else Some (Inr (new, k)))"

text \<open>
  \<^verbatim>\<open>INSERT INTO profiles\<close> by a requester: the trigger, then the insert of the row it
  returns. \<open>None\<close> is the trigger that never returns.
\<close>

definition insert_profile ::
  "requester \<Rightarrow> (nat \<Rightarrow> real) \<Rightarrow> nat \<Rightarrow> profile \<Rightarrow> db \<Rightarrow> (sql_error + db) option"
where
  "insert_profile rq rnd k new d =
     map_option
       (\<lambda>res. case res of Inl e \<Rightarrow> Inl e | Inr nk \<Rightarrow> insert_row profiles_table rq (fst nk) d)
       (set_invite_code_as rq d rnd k new)"

text \<open>
  \<^verbatim>\<open>handle_new_user\<close>: the profile of a new user, with the columns it does not name at
  their defaults; the \<^verbatim>\<open>BEFORE INSERT\<close> trigger runs first.
\<close>

definition handle_new_user ::
  "db \<Rightarrow> (nat \<Rightarrow> real) \<Rightarrow> nat \<Rightarrow> timestamptz \<Rightarrow> uuid \<Rightarrow> string \<Rightarrow> string option
     \<Rightarrow> ((sql_error + db) \<times> nat) option"
where
  "handle_new_user d rnd k now uid email full_name =
     map_option (\<lambda>nk. (insert_unrestricted profiles_table (fst nk) d, snd nk))
       (set_invite_code d rnd k
          \<lparr>p_id = uid, p_email = email, p_full_name = full_name, p_invite_code = None,
           p_partner_id = None, p_allow_read_receipts = Some True,
           p_created_at = Some now, p_updated_at = Some now\<rparr>)"

text \<open>The \<open>j\<close>-th code the trigger draws, starting at position \<open>k\<close> of the source.\<close>

definition attempt :: "(nat \<Rightarrow> real) \<Rightarrow> nat \<Rightarrow> nat \<Rightarrow> string" where
  "attempt rnd k j = fst (generate_invite_code rnd (k + 8 * j))"

section \<open>The client\<close>

text \<open>
  A JavaScript string is a list of UTF-16 code units; a value received from the server is
  a \<open>js_value\<close> (numbers as integers).
\<close>

type_synonym js_string = "nat list"

definition utf16 :: "string \<Rightarrow> js_string" where
  "utf16 s = map of_char s"

datatype js_value =
    JUndefined
  | JNull
  | JBool bool
  | JNum int
  | JStr js_string
  | JArr "js_value list"
  | JObj "(js_string \<times> js_value) list"

text \<open>The white space and line terminators that \<^verbatim>\<open>String.prototype.trim\<close> removes.\<close>

definition js_whitespace :: "nat \<Rightarrow> bool" where
  "js_whitespace c =
     (c \<in> {0x9, 0xA, 0xB, 0xC, 0xD, 0x20, 0xA0, 0x1680, 0x2028, 0x2029, 0x202F, 0x205F,
            0x3000, 0xFEFF}
      \<or> (0x2000 \<le> c \<and> c \<le> 0x200A))"

definition trim :: "js_string \<Rightarrow> js_string" where
  "trim s = rev (dropWhile js_whitespace (rev (dropWhile js_whitespace s)))"

fun truthy :: "js_value \<Rightarrow> bool" where
  "truthy JUndefined = False"
| "truthy JNull = False"
| "truthy (JBool b) = b"
| "truthy (JNum n) = (n \<noteq> 0)"
| "truthy (JStr s) = (s \<noteq> [])"
| "truthy (JArr xs) = True"
| "truthy (JObj fs) = True"

text \<open>\<^verbatim>\<open>a || b\<close>\<close>

definition js_or :: "js_value \<Rightarrow> js_value \<Rightarrow> js_value" where
  "js_or a b = (if truthy a then a else b)"

text \<open>\<^verbatim>\<open>v.name\<close> on a value that is neither \<^verbatim>\<open>null\<close> nor \<^verbatim>\<open>undefined\<close>.\<close>

fun get_prop :: "js_value \<Rightarrow> js_string \<Rightarrow> js_value" where
  "get_prop (JObj fs) k = (case map_of fs k of None \<Rightarrow> JUndefined | Some v \<Rightarrow> v)"
| "get_prop _ k = JUndefined"

definition nullish :: "js_value \<Rightarrow> bool" where
  "nullish v = (v = JUndefined \<or> v = JNull)"

text \<open>
  What a request comes back with: the data of the response, or the failure axios
  throws, which carries \<^verbatim>\<open>error.response?.data\<close> (\<^verbatim>\<open>undefined\<close> when no response arrived).
\<close>

datatype http_result = Ok js_value | Fail js_value

datatype request = Get js_string | Post js_string js_value

text \<open>\<^verbatim>\<open>error.response?.data?.detail\<close>\<close>

definition detail_of :: "js_value \<Rightarrow> js_value" where
  "detail_of data = (if nullish data then JUndefined else get_prop data (utf16 ''detail''))"

text \<open>
  What a handler does to the world, in order: the requests it sends, the dialogs it
  shows (the argument of \<^verbatim>\<open>alert\<close> as the parts of its template), what it logs, and a
  reload of the page.
\<close>

datatype part = Lit js_string | Val js_value

datatype effect =
    Request request
  | Alert "part list"
  | Console_error js_string js_value
  | Reload

text \<open>
  The environment of the component: \<^verbatim>\<open>REACT_APP_BACKEND_URL\<close>, the ISO text of
  \<^verbatim>\<open>new Date()\<close>, and the answer of the backend to each request.
\<close>

record env =
  BACKEND_URL :: js_string
  now_iso :: js_string
  net :: "request \<Rightarrow> http_result"

definition API :: "env \<Rightarrow> js_string" where
  "API e = BACKEND_URL e @ utf16 ''/api''"

text \<open>The state of \<^verbatim>\<open>JournalApp\<close>, one field per \<^verbatim>\<open>useState\<close>.\<close>

record journal_app =
  currentView :: js_string
  journalEntry :: js_string
  selectedMood :: js_string
  selectedDate :: js_string
  calendarData :: js_value
  stats :: js_value
  inviteCode :: js_string
  showInviteModal :: bool

text \<open>
  \<^verbatim>\<open>fetchStats\<close> and \<^verbatim>\<open>fetchCalendarData\<close> are called without \<^verbatim>\<open>await\<close>: the call sends the
  request at once (\<open>_request\<close>) and the answer is handled after the caller has finished
  (\<open>_settle\<close>).
\<close>

definition fetchStats_request :: "env \<Rightarrow> request" where
  "fetchStats_request e = Get (API e @ utf16 ''/stats'')"

definition fetchStats_settle :: "env \<Rightarrow> journal_app \<Rightarrow> journal_app \<times> effect list" where
  "fetchStats_settle e s =
     (case net e (fetchStats_request e) of
        Ok data \<Rightarrow> (s\<lparr>stats := data\<rparr>, [])
      | Fail err \<Rightarrow> (s, [Console_error (utf16 ''Failed to fetch stats:'') err]))"

definition fetchCalendarData_request :: "env \<Rightarrow> request" where
  "fetchCalendarData_request e = Get (API e @ utf16 ''/calendar/'' @ take 7 (now_iso e))"

definition fetchCalendarData_settle :: "env \<Rightarrow> journal_app \<Rightarrow> journal_app \<times> effect list" where
  "fetchCalendarData_settle e s =
     (case net e (fetchCalendarData_request e) of
        Ok data \<Rightarrow> (s\<lparr>calendarData := data\<rparr>, [])
      | Fail err \<Rightarrow> (s, [Console_error (utf16 ''Failed to fetch calendar data:'') err]))"

text \<open>One handler after another: the state is threaded, the effects are appended.\<close>

definition and_then ::
  "journal_app \<times> effect list \<Rightarrow> (journal_app \<Rightarrow> journal_app \<times> effect list)
     \<Rightarrow> journal_app \<times> effect list"
where
  "and_then x f = (fst (f (fst x)), snd x @ snd (f (fst x)))"

subsection \<open>\<^verbatim>\<open>saveJournalEntry\<close>\<close>

definition journal_request :: "env \<Rightarrow> journal_app \<Rightarrow> request" where
  "journal_request e s =
     Post (API e @ utf16 ''/journal'')
       (JObj [(utf16 ''content'', JStr (journalEntry s)),
              (utf16 ''date'', JStr (selectedDate s)),
              (utf16 ''mood'', JStr (selectedMood s))])"

definition mood_request :: "env \<Rightarrow> journal_app \<Rightarrow> request" where
  "mood_request e s =
     Post (API e @ utf16 ''/mood'')
       (JObj [(utf16 ''mood'', JStr (selectedMood s)),
              (utf16 ''date'', JStr (selectedDate s))])"

text \<open>The \<^verbatim>\<open>catch\<close> block.\<close>

definition save_failed :: "js_value \<Rightarrow> effect list" where
  "save_failed err =
     [Console_error (utf16 ''Failed to save entry:'') err,
      Alert [Lit (utf16 ''Failed to save entry'')]]"

text \<open>The \<^verbatim>\<open>try\<close> block after both requests have succeeded.\<close>

definition save_done :: "env \<Rightarrow> journal_app \<Rightarrow> journal_app \<times> effect list" where
  "save_done e s =
     and_then
       (and_then
          (s\<lparr>journalEntry := [], selectedMood := []\<rparr>,
           [Request (fetchStats_request e), Request (fetchCalendarData_request e),
            Alert [Lit (utf16 ''Entry saved successfully!'')]])
          (fetchStats_settle e))
       (fetchCalendarData_settle e)"

definition saveJournalEntry :: "env \<Rightarrow> journal_app \<Rightarrow> journal_app \<times> effect list" where
  "saveJournalEntry e s =
     (if trim (journalEntry s) = [] then (s, [])
      else case net e (journal_request e s) of
        Fail err \<Rightarrow> (s, Request (journal_request e s) # save_failed err)
      | Ok _ \<Rightarrow>
         (if selectedMood s \<noteq> []
          then case net e (mood_request e s) of
            Fail err \<Rightarrow>
              (s, Request (journal_request e s) # Request (mood_request e s) # save_failed err)
          | Ok _ \<Rightarrow>
              and_then (s, [Request (journal_request e s), Request (mood_request e s)])
                (save_done e)
          else and_then (s, [Request (journal_request e s)]) (save_done e)))"

text \<open>The \<^verbatim>\<open>disabled\<close> attribute of the Save Entry button.\<close>

definition save_disabled :: "journal_app \<Rightarrow> bool" where
  "save_disabled s = (trim (journalEntry s) = [])"

subsection \<open>\<^verbatim>\<open>generateReflection\<close>\<close>

definition reflection_request :: "env \<Rightarrow> js_string \<Rightarrow> request" where
  "reflection_request e date = Post (API e @ utf16 ''/generate-reflection/'' @ date) JUndefined"

definition generateReflection ::
  "env \<Rightarrow> js_string \<Rightarrow> journal_app \<Rightarrow> journal_app \<times> effect list"
where
  "generateReflection e date s =
     (case net e (reflection_request e date) of
        Ok _ \<Rightarrow>
          and_then
            (s, [Request (reflection_request e date),
                 Alert [Lit (utf16 ''AI Reflection generated successfully!'')],
                 Request (fetchCalendarData_request e)])
            (fetchCalendarData_settle e)
      | Fail err \<Rightarrow>
          (s, [Request (reflection_request e date),
               Console_error (utf16 ''Failed to generate reflection:'') err,
               Alert [Val (js_or (detail_of err) (JStr (utf16 ''Failed to generate reflection'')))]]))"

subsection \<open>\<^verbatim>\<open>invitePartner\<close>\<close>

definition invite_request :: "env \<Rightarrow> journal_app \<Rightarrow> request" where
  "invite_request e s =
     Post (API e @ utf16 ''/invite-partner'') (JObj [(utf16 ''invite_code'', JStr (inviteCode s))])"

definition invite_failed :: "js_value \<Rightarrow> effect list" where
  "invite_failed err =
     [Console_error (utf16 ''Failed to invite partner:'') err,
      Alert [Val (js_or (detail_of err) (JStr (utf16 ''Failed to invite partner'')))]]"

text \<open>
  Reading \<^verbatim>\<open>response.data.partner_name\<close> throws when the data is \<^verbatim>\<open>null\<close> or \<^verbatim>\<open>undefined\<close>;
  the \<^verbatim>\<open>catch\<close> block then runs on an error that has no response.
\<close>

definition invitePartner :: "env \<Rightarrow> journal_app \<Rightarrow> journal_app \<times> effect list" where
  "invitePartner e s =
     (if trim (inviteCode s) = [] then (s, [])
      else case net e (invite_request e s) of
        Fail err \<Rightarrow> (s, Request (invite_request e s) # invite_failed err)
      | Ok data \<Rightarrow>
         (if nullish data then (s, Request (invite_request e s) # invite_failed JUndefined)
          else
            and_then
              (s\<lparr>inviteCode := [], showInviteModal := False\<rparr>,
               [Request (invite_request e s),
                Alert [Lit (utf16 ''Partner linked successfully! Welcome ''),
                       Val (get_prop data (utf16 ''partner_name'')), Lit (utf16 ''!'')],
                Request (fetchStats_request e), Reload])
              (fetchStats_settle e)))"

text \<open>The requests among the effects of a handler, in the order they were sent.\<close>

fun requests :: "effect list \<Rightarrow> request list" where
  "requests [] = []"
| "requests (Request r # es) = r # requests es"
| "requests (_ # es) = requests es"

text \<open>The dialogs among the effects of a handler.\<close>

fun alerts :: "effect list \<Rightarrow> part list list" where
  "alerts [] = []"
| "alerts (Alert a # es) = a # alerts es"
| "alerts (_ # es) = alerts es"

section \<open>Keys and example data\<close>

text \<open>The columns of \<^verbatim>\<open>UNIQUE(user_id, date)\<close> on the journal and mood tables.\<close>

definition journal_key :: "journal_entry \<Rightarrow> uuid \<times> sql_date" where
  "journal_key r = (je_user_id r, je_date r)"

definition mood_key :: "mood_entry \<Rightarrow> uuid \<times> sql_date" where
  "mood_key r = (me_user_id r, me_date r)"

text \<open>Two users, linked as partners, and an empty database that holds their profiles.\<close>

definition alice :: uuid where
  "alice = UUID ''a11ce000-0000-4000-8000-000000000001''"

definition bob :: uuid where
  "bob = UUID ''b0b00000-0000-4000-8000-000000000002''"

definition as_user :: "uuid \<Rightarrow> requester" where
  "as_user u = \<lparr>auth_uid = Some u, auth_role = ''authenticated''\<rparr>"

definition service :: requester where
  "service = \<lparr>auth_uid = None, auth_role = ''service_role''\<rparr>"

definition profile_of :: "uuid \<Rightarrow> string \<Rightarrow> string \<Rightarrow> uuid option \<Rightarrow> profile" where
  "profile_of u email code partner =
     \<lparr>p_id = u, p_email = email, p_full_name = None, p_invite_code = Some code,
      p_partner_id = partner, p_allow_read_receipts = Some True,
      p_created_at = Some 0, p_updated_at = Some 0\<rparr>"

definition couple_db :: db where
  "couple_db =
     \<lparr>profiles = [profile_of alice ''alice@example.org'' ''AAAAAAAA'' (Some bob),
                  profile_of bob ''bob@example.org'' ''BBBBBBBB'' (Some alice)],
      journal_entries = [], mood_entries = [], shared_reflections = [],
      entry_access_logs = [], private_notes = [], storage_objects = []\<rparr>"

definition new_year :: sql_date where
  "new_year = (2024, 1, 1)"

definition journal_of :: "string \<Rightarrow> uuid \<Rightarrow> sql_date \<Rightarrow> string \<Rightarrow> journal_entry" where
  "journal_of i u day content =
     \<lparr>je_id = UUID i, je_user_id = u, je_content = content, je_date = day, je_mood = None,
      je_audio_url = None, je_shared_with = Some [], je_created_at = Some 0,
      je_updated_at = Some 0\<rparr>"

definition mood_of :: "string \<Rightarrow> uuid \<Rightarrow> sql_date \<Rightarrow> string \<Rightarrow> mood_entry" where
  "mood_of i u day m =
     \<lparr>me_id = UUID i, me_user_id = u, me_mood = m, me_date = day, me_shared_with = Some [],
      me_created_at = Some 0\<rparr>"

definition reflection_of :: "string \<Rightarrow> sql_date \<Rightarrow> uuid list \<Rightarrow> shared_reflection" where
  "reflection_of i day us =
     \<lparr>sr_id = UUID i, sr_date = day, sr_user_ids = map Some us, sr_reflection = ''A good day.'',
      sr_created_at = Some 0\<rparr>"

definition journal_db :: db where
  "journal_db =
     couple_db\<lparr>journal_entries := [journal_of ''e1'' alice new_year ''Fireworks.''],
               mood_entries := [mood_of ''m1'' alice new_year ''Happy'']\<rparr>"

definition reflection_db :: db where
  "reflection_db =
     couple_db\<lparr>shared_reflections := [reflection_of ''r1'' new_year [alice, bob]]\<rparr>"

text \<open>An identity appears in a viewer allow-list (\<^verbatim>\<open>shared_with\<close>).\<close>

definition listed :: "uuid \<Rightarrow> uuid option list option \<Rightarrow> bool" where
  "listed u sw = (case sw of None \<Rightarrow> False | Some vs \<Rightarrow> Some u \<in> set vs)"

definition fireworks :: journal_entry where
  "fireworks = journal_of ''e1'' alice new_year ''Fireworks.''"



definition carol :: uuid where
  "carol = UUID ''ca201000-0000-4000-8000-000000000003''"

definition note_of :: "string \<Rightarrow> uuid \<Rightarrow> string \<Rightarrow> string \<Rightarrow> private_note" where
  "note_of i u entry content =
     \<lparr>pn_id = UUID i, pn_user_id = u, pn_entry_id = UUID entry, pn_entry_type = ''journal'',
      pn_note_content = content, pn_created_at = Some 0, pn_updated_at = Some 0\<rparr>"

definition log_of :: "string \<Rightarrow> string \<Rightarrow> uuid \<Rightarrow> uuid \<Rightarrow> entry_access_log" where
  "log_of i entry viewer owner =
     \<lparr>al_id = UUID i, al_entry_id = UUID entry, al_entry_type = ''journal'',
      al_accessed_by = viewer, al_entry_owner = owner, al_accessed_at = Some 0\<rparr>"


definition notes_db :: db where
  "notes_db =
     journal_db\<lparr>private_notes := [note_of ''n1'' bob ''e1'' ''She loved the fireworks.''],
                entry_access_logs := [log_of ''l1'' ''e1'' bob alice]\<rparr>"


definition alice_profile :: profile where
  "alice_profile = profile_of alice ''alice@example.org'' ''AAAAAAAA'' (Some bob)"

text \<open>
  A source of draws whose first code is \<^verbatim>\<open>AAAAAAAA\<close>, whose second is \<^verbatim>\<open>BBBBBBBB\<close> and
  whose later ones are \<^verbatim>\<open>CCCCCCCC\<close>, and the profile row of a user who signs up.
\<close>

definition draws :: "nat \<Rightarrow> real" where
  "draws j = (if j < 8 then 0 else if j < 16 then 1 / 36 else 2 / 36)"

definition carol_signup :: profile where
  "carol_signup =
     \<lparr>p_id = carol, p_email = ''carol@example.org'', p_full_name = Some ''Carol'',
      p_invite_code = None, p_partner_id = None, p_allow_read_receipts = Some True,
      p_created_at = Some 5, p_updated_at = Some 5\<rparr>"

text \<open>A request that posts to \<^verbatim>\<open>/api/mood\<close>.\<close>

definition to_mood :: "env \<Rightarrow> request \<Rightarrow> bool" where
  "to_mood e r = (case r of Get u \<Rightarrow> False | Post u b \<Rightarrow> u = API e @ utf16 ''/mood'')"

text \<open>
  A freshly mounted component, with a text typed and with a mood chosen; a backend that
  accepts everything, one that refuses everything with a detail message, and one that
  refuses only the mood.
\<close>

definition fresh_app :: journal_app where
  "fresh_app =
     \<lparr>currentView = utf16 ''journal'', journalEntry = [], selectedMood = [],
      selectedDate = utf16 ''2024-01-01'', calendarData = JArr [], stats = JObj [],
      inviteCode = [], showInviteModal = False\<rparr>"

definition written :: journal_app where
  "written = fresh_app\<lparr>journalEntry := utf16 ''Fireworks.''\<rparr>"

definition written_happy :: journal_app where
  "written_happy = written\<lparr>selectedMood := utf16 ''Happy''\<rparr>"

definition conflict_detail :: js_value where
  "conflict_detail = JObj [(utf16 ''detail'', JStr (utf16 ''Entry already exists for this date''))]"

definition env_of :: "(request \<Rightarrow> http_result) \<Rightarrow> env" where
  "env_of n =
     \<lparr>BACKEND_URL = utf16 ''https://quebella.example'',
      now_iso = utf16 ''2024-01-01T09:00:00.000Z'', net = n\<rparr>"

definition ok_env :: env where
  "ok_env = env_of (\<lambda>r. Ok JNull)"

definition failing_env :: env where
  "failing_env = env_of (\<lambda>r. Fail conflict_detail)"

definition mood_fails_env :: env where
  "mood_fails_env =
     env_of (\<lambda>r. if to_mood (env_of (\<lambda>r. Ok JNull)) r then Fail conflict_detail else Ok JNull)"


section \<open>Facts about the logic and the statements\<close>

lemma sql_eq_True: "sql_eq a b = Some True \<longleftrightarrow> (\<exists>x. a = Some x \<and> b = Some x)"
  by (cases a; cases b) auto

lemma sql_or_True: "sql_or a b = Some True \<longleftrightarrow> a = Some True \<or> b = Some True"
  by (cases "(a, b)" rule: sql_or.cases) auto

lemma sql_and_True: "sql_and a b = Some True \<longleftrightarrow> a = Some True \<and> b = Some True"
  by (cases "(a, b)" rule: sql_and.cases) auto

lemma sql_in_True: "sql_in x ys = Some True \<longleftrightarrow> (\<exists>v. x = Some v \<and> Some v \<in> set ys)"
  unfolding sql_in_def
  by (induction ys) (auto simp: sql_or_True sql_eq_True)

lemma sql_any_True:
  "sql_any x arr = Some True \<longleftrightarrow> (\<exists>v ys. x = Some v \<and> arr = Some ys \<and> Some v \<in> set ys)"
  by (cases arr) (auto simp: sql_any_def sql_in_True)

lemma permits_Nil: "permits [] c rq d r = False"
  by (simp add: permits_def)

lemma permits_Cons:
  "permits (p # ps) c rq d r \<longleftrightarrow>
     (policy_applies p c \<and> pol_expr p rq d r = Some True) \<or> permits ps c rq d r"
  by (simp add: permits_def)

lemmas permits_simps = permits_Nil permits_Cons policy_applies_def sql_eq_True sql_or_True
  sql_and_True sql_in_True sql_any_True

lemma first_violation_Nil: "first_violation [] bad = None"
  by (simp add: first_violation_def)

lemma first_violation_Cons:
  "first_violation (nc # cs) bad = (if bad (snd nc) then Some (fst nc) else first_violation cs bad)"
  by (simp add: first_violation_def)

lemma first_violation_None:
  "first_violation cs bad = None \<longleftrightarrow> (\<forall>nc \<in> set cs. \<not> bad (snd nc))"
  by (auto simp: first_violation_def find_None_iff)

section \<open>The rewriter on the tables of the migration\<close>

text \<open>
  The policies of five tables contain no subquery, and no statement on them is refused.
  The select policy of \<^verbatim>\<open>profiles\<close> reads \<^verbatim>\<open>profiles\<close>, and the select policy of the audio
  objects reads \<^verbatim>\<open>profiles\<close>: every statement to which one of the two applies is refused,
  with \<^verbatim>\<open>profiles\<close> as the relation of the error.
\<close>

lemma reads_for_none: "(\<forall>p \<in> set pols. pol_reads p = []) \<Longrightarrow> reads_for c pols = []"
  by (simp add: reads_for_def)

lemma rewrite_none:
  "(\<forall>p \<in> set (td_policies td). pol_reads p = []) \<Longrightarrow> rewrite td cs = None"
proof -
  assume a: "\<forall>p \<in> set (td_policies td). pol_reads p = []"
  have c: "concat (map (\<lambda>c. []) cs) = ([] :: string list)" for cs :: "command list"
    by (induction cs) simp_all
  show ?thesis by (simp add: rewrite_def reads_for_none[OF a] c)
qed

lemma rewrite_plain:
  "rewrite journal_entries_table cs = None" "rewrite mood_entries_table cs = None"
  "rewrite shared_reflections_table cs = None" "rewrite entry_access_logs_table cs = None"
  "rewrite private_notes_table cs = None"
  by (rule rewrite_none,
      simp add: journal_entries_table_def journal_entries_policies_def mood_entries_table_def
        mood_entries_policies_def shared_reflections_table_def shared_reflections_policies_def
        entry_access_logs_table_def entry_access_logs_policies_def private_notes_table_def
        private_notes_policies_def)+

lemma reads_profiles:
  "reads_for Select profiles_policies = [''profiles'']"
  "reads_for Insert profiles_policies = []" "reads_for Update profiles_policies = []"
  "reads_for Delete profiles_policies = []"
  by (simp_all add: reads_for_def profiles_policies_def policy_applies_def)


lemma select_reads_of_profiles: "select_reads_of ''profiles'' = [''profiles'']"
  by (simp add: select_reads_of_def relation_reads_def profiles_table_def reads_profiles)

lemma expand_profiles:
  "expand_rel [''profiles''] ''profiles'' = Some ''profiles''"
  "expand_rel [''storage.objects''] ''profiles'' = Some ''profiles''"
proof -
  show a: "expand_rel [''profiles''] ''profiles'' = Some ''profiles''"
    by (subst expand_rel.simps) (simp add: select_reads_of_profiles)
  have "expand_rel [''profiles'', ''storage.objects''] ''profiles'' = Some ''profiles''"
    by (subst expand_rel.simps) (simp add: select_reads_of_profiles)
  then show "expand_rel [''storage.objects''] ''profiles'' = Some ''profiles''"
    by (subst expand_rel.simps) (simp add: select_reads_of_profiles)
qed

lemma rewrite_profiles:
  "rewrite profiles_table [Select] = Some ''profiles''"
  "rewrite profiles_table [Update, Select] = Some ''profiles''"
  "rewrite profiles_table [Delete, Select] = Some ''profiles''"
  "rewrite profiles_table [Insert] = None"
  by (simp_all add: rewrite_def profiles_table_def reads_profiles expand_profiles)


lemma plain_statements:
  assumes "\<And>cs. rewrite td cs = None"
  shows "insert_row td rq r d =
           (if \<not> permits (td_policies td) Insert rq d r then Inl Rls_violation
            else insert_unrestricted td r d)"
    and "select_rows td rq w d =
           Inr (filter (\<lambda>r. permits (td_policies td) Select rq d r \<and> w r) (td_rows td d))"
    and "delete_rows td rq w d =
           Inr (td_put td
             (filter (\<lambda>r. \<not> (permits (td_policies td) Delete rq d r
                             \<and> permits (td_policies td) Select rq d r \<and> w r))
                (td_rows td d)) d)"
  by (simp_all add: insert_row_def select_rows_def delete_rows_def assms)

lemma insert_row_cases:
  "insert_row td rq r d = Inr d' \<Longrightarrow>
     permits (td_policies td) Insert rq d r \<and>
     first_violation (td_uniques td) (\<lambda>c. list_ex (c r) (td_rows td d)) = None \<and>
     d' = td_put td (td_rows td d @ [r]) d"
  by (auto simp: insert_row_def insert_unrestricted_def Let_def split: if_splits option.splits)

lemma update_scan_cases:
  assumes "update_scan td rq now w f d done todo = Inr rows"
  shows "rows = done @ map (\<lambda>r. if permits (td_policies td) Update rq d r
                                   \<and> permits (td_policies td) Select rq d r \<and> w r
                                then td_before_update td now (f r) else r) todo
       \<and> (\<forall>r \<in> set todo. permits (td_policies td) Update rq d r
                \<and> permits (td_policies td) Select rq d r \<and> w r \<longrightarrow>
             permits (td_policies td) Update rq d (td_before_update td now (f r)))"
  using assms
proof (induction todo arbitrary: "done")
  case Nil
  then show ?case by simp
next
  case (Cons r todo)
  show ?case
  proof (cases "permits (td_policies td) Update rq d r
                  \<and> permits (td_policies td) Select rq d r \<and> w r")
    case True
    with Cons.prems
    have ok: "permits (td_policies td) Update rq d (td_before_update td now (f r))"
      and rest: "update_scan td rq now w f d (done @ [td_before_update td now (f r)]) todo
                   = Inr rows"
      by (auto simp: Let_def split: if_splits option.splits)
    from Cons.IH[OF rest] True ok show ?thesis by simp
  next
    case False
    with Cons.prems have "update_scan td rq now w f d (done @ [r]) todo = Inr rows"
      by auto
    from Cons.IH[OF this] False show ?thesis by auto
  qed
qed

lemma update_rows_cases:
  assumes "update_rows td rq now w f d = Inr d'"
  shows "d' = td_put td
            (map (\<lambda>r. if permits (td_policies td) Update rq d r
                          \<and> permits (td_policies td) Select rq d r \<and> w r
                       then td_before_update td now (f r) else r) (td_rows td d)) d
         \<and> (\<forall>r \<in> set (td_rows td d). permits (td_policies td) Update rq d r
                \<and> permits (td_policies td) Select rq d r \<and> w r \<longrightarrow>
               permits (td_policies td) Update rq d (td_before_update td now (f r)))"
proof -
  from assms obtain rows where s: "update_scan td rq now w f d [] (td_rows td d) = Inr rows"
    and d': "d' = td_put td rows d"
    by (auto simp: update_rows_def Let_def split: option.splits sum.splits)
  from update_scan_cases[OF s] d' show ?thesis by simp
qed

section \<open>What a statement leaves alone\<close>

text \<open>
  For a table whose rows are read back as they were put, and a property \<open>own\<close> that every
  row a write policy admits has: the rows without the property are the same before and
  after an insert, an update or a delete, whether the statement succeeds or fails.
\<close>

lemma insert_frame:
  assumes l: "\<And>rs d. td_rows td (td_put td rs d) = rs"
    and o: "permits (td_policies td) Insert rq d r \<Longrightarrow> own r"
  shows "filter (\<lambda>x. \<not> own x) (td_rows td (snd (exec (insert_row td rq r) d)))
           = filter (\<lambda>x. \<not> own x) (td_rows td d)"
proof (cases "insert_row td rq r d")
  case (Inl e)
  then show ?thesis by (simp add: exec_def)
next
  case (Inr d')
  from insert_row_cases[OF Inr] o l Inr show ?thesis by (simp add: exec_def)
qed

lemma delete_frame:
  assumes l: "\<And>rs d. td_rows td (td_put td rs d) = rs"
    and o: "\<And>x. permits (td_policies td) Delete rq d x \<Longrightarrow> own x"
  shows "filter (\<lambda>x. \<not> own x) (td_rows td (snd (exec (delete_rows td rq w) d)))
           = filter (\<lambda>x. \<not> own x) (td_rows td d)"
  using o by (auto simp: exec_def delete_rows_def l split: option.splits intro!: filter_cong)

lemma update_frame:
  assumes l: "\<And>rs d. td_rows td (td_put td rs d) = rs"
    and o: "\<And>x. permits (td_policies td) Update rq d x \<Longrightarrow> own x"
  shows "filter (\<lambda>x. \<not> own x) (td_rows td (snd (exec (update_rows td rq now w f) d)))
           = filter (\<lambda>x. \<not> own x) (td_rows td d)"
proof (cases "update_rows td rq now w f d")
  case (Inl e)
  then show ?thesis by (simp add: exec_def)
next
  case (Inr d')
  let ?hit = "\<lambda>r. permits (td_policies td) Update rq d r
                 \<and> permits (td_policies td) Select rq d r \<and> w r"
  let ?new = "\<lambda>r. td_before_update td now (f r)"
  from update_rows_cases[OF Inr]
  have d': "td_rows td d' = map (\<lambda>r. if ?hit r then ?new r else r) (td_rows td d)"
    and ok: "\<forall>r \<in> set (td_rows td d). ?hit r \<longrightarrow> permits (td_policies td) Update rq d (?new r)"
    by (simp_all add: l)
  have "filter (\<lambda>x. \<not> own x) (map (\<lambda>r. if ?hit r then ?new r else r) rs)
          = filter (\<lambda>x. \<not> own x) rs"
    if "\<forall>r \<in> set rs. ?hit r \<longrightarrow> permits (td_policies td) Update rq d (?new r)" for rs
    using that o by (induction rs) auto
  with ok d' Inr show ?thesis by (simp add: exec_def)
qed

lemma filter_narrow:
  assumes "filter P xs = filter P ys" and "\<And>x. Q x \<Longrightarrow> P x"
  shows "filter Q xs = filter Q ys"
proof -
  have "filter Q zs = filter Q (filter P zs)" for zs
    using assms(2) by (induction zs) auto
  with assms(1) show ?thesis by metis
qed

text \<open>
  A unique constraint that compares the key of two rows keeps the keys of the table
  pairwise different across updates and deletes.
\<close>

lemma update_scan_distinct:
  assumes "update_scan td rq now w f d done todo = Inr rows"
    and u: "(n, \<lambda>a b. key a = key b) \<in> set (td_uniques td)"
    and "distinct (map key (done @ todo))"
  shows "distinct (map key rows)"
  using assms(1,3)
proof (induction todo arbitrary: "done")
  case Nil
  then show ?case by simp
next
  case (Cons r todo)
  show ?case
  proof (cases "permits (td_policies td) Update rq d r
                  \<and> permits (td_policies td) Select rq d r \<and> w r")
    case True
    let ?r' = "td_before_update td now (f r)"
    from True Cons.prems(1)
    have v: "first_violation (td_uniques td) (\<lambda>c. list_ex (c ?r') (done @ todo)) = None"
      and rest: "update_scan td rq now w f d (done @ [?r']) todo = Inr rows"
      by (auto simp: Let_def split: if_splits option.splits)
    from v u have "\<not> list_ex (\<lambda>b. key ?r' = key b) (done @ todo)"
      by (auto simp: first_violation_None)
    then have "key ?r' \<notin> set (map key (done @ todo))"
      by (auto simp: list_ex_iff)
    with Cons.prems(2) have "distinct (map key ((done @ [?r']) @ todo))"
      by auto
    from Cons.IH[OF rest this] show ?thesis .
  next
    case False
    with Cons.prems(1) have "update_scan td rq now w f d (done @ [r]) todo = Inr rows"
      by auto
    moreover from Cons.prems(2) have "distinct (map key ((done @ [r]) @ todo))"
      by simp
    ultimately show ?thesis by (rule Cons.IH)
  qed
qed

lemma update_keeps_distinct:
  assumes l: "\<And>rs d. td_rows td (td_put td rs d) = rs"
    and u: "(n, \<lambda>a b. key a = key b) \<in> set (td_uniques td)"
    and dist: "distinct (map key (td_rows td d))"
  shows "distinct (map key (td_rows td (snd (exec (update_rows td rq now w f) d))))"
proof (cases "update_rows td rq now w f d")
  case (Inl e)
  then show ?thesis using dist by (simp add: exec_def)
next
  case (Inr d')
  then obtain rows where s: "update_scan td rq now w f d [] (td_rows td d) = Inr rows"
    and d': "d' = td_put td rows d"
    by (auto simp: update_rows_def Let_def split: option.splits sum.splits)
  from update_scan_distinct[OF s u] dist have "distinct (map key rows)" by simp
  with Inr d' show ?thesis by (simp add: exec_def l)
qed

lemma delete_keeps_distinct:
  assumes l: "\<And>rs d. td_rows td (td_put td rs d) = rs"
    and dist: "distinct (map key (td_rows td d))"
  shows "distinct (map key (td_rows td (snd (exec (delete_rows td rq w) d))))"
  using dist by (simp add: exec_def delete_rows_def l distinct_map_filter split: option.splits)

section \<open>The example data\<close>

lemma alice_neq_bob: "alice \<noteq> bob" "bob \<noteq> alice"
  by (simp_all add: alice_def bob_def)

lemma carol_neq: "carol \<noteq> alice" "carol \<noteq> bob" "alice \<noteq> carol" "bob \<noteq> carol"
  by (simp_all add: alice_def bob_def carol_def)

lemma foreign_keys_couple:
  "profiles d = profiles couple_db \<Longrightarrow> journal_entries d = [] \<Longrightarrow> mood_entries d = [] \<Longrightarrow>
   entry_access_logs d = [] \<Longrightarrow> private_notes d = [] \<Longrightarrow>
   first_violation foreign_keys (\<lambda>c. \<not> c d) = None"
  by (simp add: foreign_keys_def first_violation_Cons first_violation_Nil couple_db_def
      profile_of_def profile_exists_def)

section \<open>Journal and mood entries\<close>

lemma journal_select:
  "permits journal_entries_policies Select rq d r \<longleftrightarrow>
     auth_uid rq = Some (je_user_id r) \<or>
     (\<exists>v ys. auth_uid rq = Some v \<and> je_shared_with r = Some ys \<and> Some v \<in> set ys)"
  by (auto simp: journal_entries_policies_def permits_simps)

lemma journal_write:
  "c \<noteq> Select \<Longrightarrow>
   permits journal_entries_policies c rq d r \<longleftrightarrow> auth_uid rq = Some (je_user_id r)"
  by (cases c) (auto simp: journal_entries_policies_def permits_simps)

lemma mood_select:
  "permits mood_entries_policies Select rq d r \<longleftrightarrow>
     auth_uid rq = Some (me_user_id r) \<or>
     (\<exists>v ys. auth_uid rq = Some v \<and> me_shared_with r = Some ys \<and> Some v \<in> set ys)"
  by (auto simp: mood_entries_policies_def permits_simps)

lemma mood_write:
  "c \<noteq> Select \<Longrightarrow>
   permits mood_entries_policies c rq d r \<longleftrightarrow> auth_uid rq = Some (me_user_id r)"
  by (cases c) (auto simp: mood_entries_policies_def permits_simps)

lemma listed_iff: "listed u sw \<longleftrightarrow> (\<exists>vs. sw = Some vs \<and> Some u \<in> set vs)"
  by (cases sw) (auto simp: listed_def)

subsection \<open>One entry per owner and day\<close>

lemma journal_insert_conflict:
  assumes e: "e \<in> set (journal_entries d)" and k: "journal_key e = journal_key r"
  shows "\<exists>err. exec (insert_row journal_entries_table rq r) d = (Some err, d) \<and>
            (if auth_uid rq = Some (je_user_id r)
             then err = Unique_violation
               (if je_id r \<in> set (map je_id (journal_entries d)) then ''journal_entries_pkey''
                else ''journal_entries_user_id_date_key'')
             else err = Rls_violation)"
proof -
  have ex: "list_ex (\<lambda>b. je_user_id r = je_user_id b \<and> je_date r = je_date b) (journal_entries d)"
    using e k by (auto simp: list_ex_iff journal_key_def intro!: bexI[of _ e])
  show ?thesis
    using ex unfolding exec_def plain_statements(1)[OF rewrite_plain(1)] insert_unrestricted_def
    by (auto simp: journal_entries_table_def journal_write first_violation_Nil
        first_violation_Cons list_ex_iff)
qed

lemma journal_insert_distinct:
  assumes "distinct (map journal_key (journal_entries d))"
  shows "distinct (map journal_key
           (journal_entries (snd (exec (insert_row journal_entries_table rq r) d))))"
proof (cases "insert_row journal_entries_table rq r d")
  case (Inl e)
  then show ?thesis using assms by (simp add: exec_def)
next
  case (Inr d')
  from insert_row_cases[OF Inr]
  have u: "first_violation (td_uniques journal_entries_table)
             (\<lambda>c. list_ex (c r) (journal_entries d)) = None"
    and d': "d' = d\<lparr>journal_entries := journal_entries d @ [r]\<rparr>"
    by (simp_all add: journal_entries_table_def)
  from u have "journal_key r \<notin> set (map journal_key (journal_entries d))"
    by (auto simp: journal_entries_table_def first_violation_Cons first_violation_Nil
        list_ex_iff journal_key_def split: if_splits)
  then show ?thesis using assms Inr d' by (simp add: exec_def)
qed

lemma journal_statements_distinct:
  assumes "distinct (map journal_key (journal_entries d))"
  shows "distinct (map journal_key
           (journal_entries (snd (exec (update_rows journal_entries_table rq now w f) d))))"
    and "distinct (map journal_key
           (journal_entries (snd (exec (delete_rows journal_entries_table rq w) d))))"
proof -
  have l: "td_rows journal_entries_table (td_put journal_entries_table rs d') = rs" for rs d'
    by (simp add: journal_entries_table_def)
  have rows: "td_rows journal_entries_table = journal_entries"
    by (simp add: journal_entries_table_def)
  have u: "(''journal_entries_user_id_date_key'', \<lambda>a b. journal_key a = journal_key b)
             \<in> set (td_uniques journal_entries_table)"
    by (simp add: journal_entries_table_def journal_key_def)
  show "distinct (map journal_key
           (journal_entries (snd (exec (update_rows journal_entries_table rq now w f) d))))"
    using update_keeps_distinct[of journal_entries_table _ journal_key d rq now w f, OF l u] assms
    by (simp only: rows)
  show "distinct (map journal_key
           (journal_entries (snd (exec (delete_rows journal_entries_table rq w) d))))"
    using delete_keeps_distinct[of journal_entries_table journal_key d rq w, OF l] assms
    by (simp only: rows)
qed

lemma mood_insert_conflict:
  assumes e: "e \<in> set (mood_entries d)" and k: "mood_key e = mood_key r"
  shows "\<exists>err. exec (insert_row mood_entries_table rq r) d = (Some err, d) \<and>
            (if auth_uid rq = Some (me_user_id r)
             then err = Unique_violation
               (if me_id r \<in> set (map me_id (mood_entries d)) then ''mood_entries_pkey''
                else ''mood_entries_user_id_date_key'')
             else err = Rls_violation)"
proof -
  have ex: "list_ex (\<lambda>b. me_user_id r = me_user_id b \<and> me_date r = me_date b) (mood_entries d)"
    using e k by (auto simp: list_ex_iff mood_key_def intro!: bexI[of _ e])
  show ?thesis
    using ex unfolding exec_def plain_statements(1)[OF rewrite_plain(2)] insert_unrestricted_def
    by (auto simp: mood_entries_table_def mood_write first_violation_Nil
        first_violation_Cons list_ex_iff)
qed

lemma mood_insert_distinct:
  assumes "distinct (map mood_key (mood_entries d))"
  shows "distinct (map mood_key
           (mood_entries (snd (exec (insert_row mood_entries_table rq r) d))))"
proof (cases "insert_row mood_entries_table rq r d")
  case (Inl e)
  then show ?thesis using assms by (simp add: exec_def)
next
  case (Inr d')
  from insert_row_cases[OF Inr]
  have u: "first_violation (td_uniques mood_entries_table)
             (\<lambda>c. list_ex (c r) (mood_entries d)) = None"
    and d': "d' = d\<lparr>mood_entries := mood_entries d @ [r]\<rparr>"
    by (simp_all add: mood_entries_table_def)
  from u have "mood_key r \<notin> set (map mood_key (mood_entries d))"
    by (auto simp: mood_entries_table_def first_violation_Cons first_violation_Nil
        list_ex_iff mood_key_def split: if_splits)
  then show ?thesis using assms Inr d' by (simp add: exec_def)
qed

lemma mood_statements_distinct:
  assumes "distinct (map mood_key (mood_entries d))"
  shows "distinct (map mood_key
           (mood_entries (snd (exec (update_rows mood_entries_table rq now w f) d))))"
    and "distinct (map mood_key
           (mood_entries (snd (exec (delete_rows mood_entries_table rq w) d))))"
proof -
  have l: "td_rows mood_entries_table (td_put mood_entries_table rs d') = rs" for rs d'
    by (simp add: mood_entries_table_def)
  have rows: "td_rows mood_entries_table = mood_entries"
    by (simp add: mood_entries_table_def)
  have u: "(''mood_entries_user_id_date_key'', \<lambda>a b. mood_key a = mood_key b)
             \<in> set (td_uniques mood_entries_table)"
    by (simp add: mood_entries_table_def mood_key_def)
  show "distinct (map mood_key
           (mood_entries (snd (exec (update_rows mood_entries_table rq now w f) d))))"
    using update_keeps_distinct[of mood_entries_table _ mood_key d rq now w f, OF l u] assms
    by (simp only: rows)
  show "distinct (map mood_key
           (mood_entries (snd (exec (delete_rows mood_entries_table rq w) d))))"
    using delete_keeps_distinct[of mood_entries_table mood_key d rq w, OF l] assms
    by (simp only: rows)
qed

text \<open>
  Claim C3. When the journal table already holds an entry of owner O for date D, an insert
  of another row for (O, D) fails and the database is exactly what it was (nothing is merged
  into the existing row); when O is the requester the failure is a unique violation, of the
  primary key when the id is taken as well and of \<^verbatim>\<open>UNIQUE(user_id, date)\<close> otherwise (any
  other requester is refused by the insert policy). No insert, update or delete breaks the
  invariant that the rows of the table have pairwise different (owner, date) keys. The same
  holds for the mood table.
\<close>

theorem daily_entry_insert_conflict:
  "(e \<in> set (journal_entries d) \<and> journal_key e = journal_key r \<longrightarrow>
      exec (insert_row journal_entries_table rq r) d
        = (Some (if auth_uid rq = Some (je_user_id r)
                 then Unique_violation
                   (if je_id r \<in> set (map je_id (journal_entries d))
                    then ''journal_entries_pkey'' else ''journal_entries_user_id_date_key'')
                 else Rls_violation), d))
   \<and> (distinct (map journal_key (journal_entries d))
       \<and> st \<in> {insert_row journal_entries_table rq r,
                 update_rows journal_entries_table rq now w f,
                 delete_rows journal_entries_table rq w} \<longrightarrow>
      distinct (map journal_key (journal_entries (snd (exec st d)))))
   \<and> (m \<in> set (mood_entries d) \<and> mood_key m = mood_key r' \<longrightarrow>
      exec (insert_row mood_entries_table rq' r') d
        = (Some (if auth_uid rq' = Some (me_user_id r')
                 then Unique_violation
                   (if me_id r' \<in> set (map me_id (mood_entries d))
                    then ''mood_entries_pkey'' else ''mood_entries_user_id_date_key'')
                 else Rls_violation), d))
   \<and> (distinct (map mood_key (mood_entries d))
       \<and> st' \<in> {insert_row mood_entries_table rq' r',
                  update_rows mood_entries_table rq' now' w' f',
                  delete_rows mood_entries_table rq' w'} \<longrightarrow>
      distinct (map mood_key (mood_entries (snd (exec st' d)))))"
proof (intro conjI impI)
  assume "e \<in> set (journal_entries d) \<and> journal_key e = journal_key r"
  then show "exec (insert_row journal_entries_table rq r) d
        = (Some (if auth_uid rq = Some (je_user_id r)
                 then Unique_violation
                   (if je_id r \<in> set (map je_id (journal_entries d))
                    then ''journal_entries_pkey'' else ''journal_entries_user_id_date_key'')
                 else Rls_violation), d)"
    using journal_insert_conflict[of e d r rq] by auto
next
  assume "m \<in> set (mood_entries d) \<and> mood_key m = mood_key r'"
  then show "exec (insert_row mood_entries_table rq' r') d
        = (Some (if auth_uid rq' = Some (me_user_id r')
                 then Unique_violation
                   (if me_id r' \<in> set (map me_id (mood_entries d))
                    then ''mood_entries_pkey'' else ''mood_entries_user_id_date_key'')
                 else Rls_violation), d)"
    using mood_insert_conflict[of m d r' rq'] by auto
next
  assume "distinct (map journal_key (journal_entries d))
       \<and> st \<in> {insert_row journal_entries_table rq r,
                 update_rows journal_entries_table rq now w f,
                 delete_rows journal_entries_table rq w}"
  then show "distinct (map journal_key (journal_entries (snd (exec st d))))"
    using journal_insert_distinct[of d rq r]
      journal_statements_distinct(1)[where d = d and rq = rq and now = now and w = w and f = f]
      journal_statements_distinct(2)[where d = d and rq = rq and w = w]
    by auto
next
  assume "distinct (map mood_key (mood_entries d))
       \<and> st' \<in> {insert_row mood_entries_table rq' r',
                  update_rows mood_entries_table rq' now' w' f',
                  delete_rows mood_entries_table rq' w'}"
  then show "distinct (map mood_key (mood_entries (snd (exec st' d))))"
    using mood_insert_distinct[of d rq' r']
      mood_statements_distinct(1)[where d = d and rq = rq' and now = now' and w = w' and f = f']
      mood_statements_distinct(2)[where d = d and rq = rq' and w = w']
    by auto
qed

theorem daily_entry_insert_conflict_witness:
  "exec (insert_row journal_entries_table (as_user alice)
      (journal_of ''e2'' alice new_year ''Again.'')) journal_db
     = (Some (Unique_violation ''journal_entries_user_id_date_key''), journal_db)
   \<and> distinct (map journal_key (journal_entries (snd
        (exec (insert_row journal_entries_table (as_user alice)
            (journal_of ''e2'' alice new_year ''Again.'')) journal_db))))
   \<and> exec (insert_row mood_entries_table (as_user alice)
        (mood_of ''m2'' alice new_year ''Tired'')) journal_db
       = (Some (Unique_violation ''mood_entries_user_id_date_key''), journal_db)
   \<and> distinct (map mood_key (mood_entries (snd
        (exec (insert_row mood_entries_table (as_user alice)
            (mood_of ''m2'' alice new_year ''Tired'')) journal_db))))"
proof -
  have j: "journal_of ''e1'' alice new_year ''Fireworks.'' \<in> set (journal_entries journal_db)
      \<and> journal_key (journal_of ''e1'' alice new_year ''Fireworks.'')
          = journal_key (journal_of ''e2'' alice new_year ''Again.'')"
    by (simp add: journal_db_def journal_of_def journal_key_def)
  have m: "mood_of ''m1'' alice new_year ''Happy'' \<in> set (mood_entries journal_db)
      \<and> mood_key (mood_of ''m1'' alice new_year ''Happy'')
          = mood_key (mood_of ''m2'' alice new_year ''Tired'')"
    by (simp add: journal_db_def mood_of_def mood_key_def)
  have dj: "distinct (map journal_key (journal_entries journal_db))
      \<and> insert_row journal_entries_table (as_user alice)
            (journal_of ''e2'' alice new_year ''Again.'')
        \<in> {insert_row journal_entries_table (as_user alice)
              (journal_of ''e2'' alice new_year ''Again.''),
            update_rows journal_entries_table (as_user alice) 0 (\<lambda>x. True) (\<lambda>x. x),
            delete_rows journal_entries_table (as_user alice) (\<lambda>x. True)}"
    by (simp add: journal_db_def)
  have dm: "distinct (map mood_key (mood_entries journal_db))
      \<and> insert_row mood_entries_table (as_user alice) (mood_of ''m2'' alice new_year ''Tired'')
        \<in> {insert_row mood_entries_table (as_user alice) (mood_of ''m2'' alice new_year ''Tired''),
            update_rows mood_entries_table (as_user alice) 0 (\<lambda>x. True) (\<lambda>x. x),
            delete_rows mood_entries_table (as_user alice) (\<lambda>x. True)}"
    by (simp add: journal_db_def)
  have i: "auth_uid (as_user alice) = Some (je_user_id (journal_of ''e2'' alice new_year ''Again.''))"
    "auth_uid (as_user alice) = Some (me_user_id (mood_of ''m2'' alice new_year ''Tired''))"
    "je_id (journal_of ''e2'' alice new_year ''Again.'') \<notin> set (map je_id (journal_entries journal_db))"
    "me_id (mood_of ''m2'' alice new_year ''Tired'') \<notin> set (map me_id (mood_entries journal_db))"
    by (simp_all add: as_user_def journal_of_def mood_of_def journal_db_def)
  show ?thesis
    using daily_entry_insert_conflict[where e = "journal_of ''e1'' alice new_year ''Fireworks.''"
        and d = journal_db and r = "journal_of ''e2'' alice new_year ''Again.''"
        and rq = "as_user alice" and m = "mood_of ''m1'' alice new_year ''Happy''"
        and r' = "mood_of ''m2'' alice new_year ''Tired''" and rq' = "as_user alice"
        and st = "insert_row journal_entries_table (as_user alice)
            (journal_of ''e2'' alice new_year ''Again.'')"
        and st' = "insert_row mood_entries_table (as_user alice)
            (mood_of ''m2'' alice new_year ''Tired'')"
        and now = 0 and w = "\<lambda>x. True" and f = "\<lambda>x. x"
        and now' = 0 and w' = "\<lambda>x. True" and f' = "\<lambda>x. x"] j m dj dm i
    by simp
qed

subsection \<open>Who may read and write entries\<close>

lemma journal_frame:
  assumes rq: "auth_uid rq = Some u"
  shows "filter (\<lambda>x. je_user_id x \<noteq> u)
           (journal_entries (snd (exec (insert_row journal_entries_table rq r) d)))
         = filter (\<lambda>x. je_user_id x \<noteq> u) (journal_entries d)"
    and "filter (\<lambda>x. je_user_id x \<noteq> u)
           (journal_entries (snd (exec (update_rows journal_entries_table rq now w f) d)))
         = filter (\<lambda>x. je_user_id x \<noteq> u) (journal_entries d)"
    and "filter (\<lambda>x. je_user_id x \<noteq> u)
           (journal_entries (snd (exec (delete_rows journal_entries_table rq w) d)))
         = filter (\<lambda>x. je_user_id x \<noteq> u) (journal_entries d)"
proof -
  have l: "td_rows journal_entries_table (td_put journal_entries_table rs d') = rs" for rs d'
    by (simp add: journal_entries_table_def)
  have rows: "td_rows journal_entries_table = journal_entries"
    by (simp add: journal_entries_table_def)
  have own: "je_user_id x = u"
    if "permits (td_policies journal_entries_table) c rq d x" "c \<noteq> Select" for c x
    using that rq by (simp add: journal_entries_table_def journal_write)
  show "filter (\<lambda>x. je_user_id x \<noteq> u)
           (journal_entries (snd (exec (insert_row journal_entries_table rq r) d)))
         = filter (\<lambda>x. je_user_id x \<noteq> u) (journal_entries d)"
    using insert_frame[of journal_entries_table rq d r "\<lambda>x. je_user_id x = u", OF l own[of Insert r, simplified]]
    by (simp only: rows)
  show "filter (\<lambda>x. je_user_id x \<noteq> u)
           (journal_entries (snd (exec (update_rows journal_entries_table rq now w f) d)))
         = filter (\<lambda>x. je_user_id x \<noteq> u) (journal_entries d)"
    using update_frame[of journal_entries_table rq d "\<lambda>x. je_user_id x = u" now w f, OF l own[of Update, simplified]]
    by (simp only: rows)
  show "filter (\<lambda>x. je_user_id x \<noteq> u)
           (journal_entries (snd (exec (delete_rows journal_entries_table rq w) d)))
         = filter (\<lambda>x. je_user_id x \<noteq> u) (journal_entries d)"
    using delete_frame[of journal_entries_table rq d "\<lambda>x. je_user_id x = u" w, OF l own[of Delete, simplified]]
    by (simp only: rows)
qed

lemma mood_frame:
  assumes rq: "auth_uid rq = Some u"
  shows "filter (\<lambda>x. me_user_id x \<noteq> u)
           (mood_entries (snd (exec (insert_row mood_entries_table rq r) d)))
         = filter (\<lambda>x. me_user_id x \<noteq> u) (mood_entries d)"
    and "filter (\<lambda>x. me_user_id x \<noteq> u)
           (mood_entries (snd (exec (update_rows mood_entries_table rq now w f) d)))
         = filter (\<lambda>x. me_user_id x \<noteq> u) (mood_entries d)"
    and "filter (\<lambda>x. me_user_id x \<noteq> u)
           (mood_entries (snd (exec (delete_rows mood_entries_table rq w) d)))
         = filter (\<lambda>x. me_user_id x \<noteq> u) (mood_entries d)"
proof -
  have l: "td_rows mood_entries_table (td_put mood_entries_table rs d') = rs" for rs d'
    by (simp add: mood_entries_table_def)
  have rows: "td_rows mood_entries_table = mood_entries"
    by (simp add: mood_entries_table_def)
  have own: "me_user_id x = u"
    if "permits (td_policies mood_entries_table) c rq d x" "c \<noteq> Select" for c x
    using that rq by (simp add: mood_entries_table_def mood_write)
  show "filter (\<lambda>x. me_user_id x \<noteq> u)
           (mood_entries (snd (exec (insert_row mood_entries_table rq r) d)))
         = filter (\<lambda>x. me_user_id x \<noteq> u) (mood_entries d)"
    using insert_frame[of mood_entries_table rq d r "\<lambda>x. me_user_id x = u", OF l own[of Insert r, simplified]]
    by (simp only: rows)
  show "filter (\<lambda>x. me_user_id x \<noteq> u)
           (mood_entries (snd (exec (update_rows mood_entries_table rq now w f) d)))
         = filter (\<lambda>x. me_user_id x \<noteq> u) (mood_entries d)"
    using update_frame[of mood_entries_table rq d "\<lambda>x. me_user_id x = u" now w f, OF l own[of Update, simplified]]
    by (simp only: rows)
  show "filter (\<lambda>x. me_user_id x \<noteq> u)
           (mood_entries (snd (exec (delete_rows mood_entries_table rq w) d)))
         = filter (\<lambda>x. me_user_id x \<noteq> u) (mood_entries d)"
    using delete_frame[of mood_entries_table rq d "\<lambda>x. me_user_id x = u" w, OF l own[of Delete, simplified]]
    by (simp only: rows)
qed

text \<open>
  Claim C2. For a requester whose identity is \<open>u\<close>, on the journal and on the mood table:
  the select policy admits a row exactly when \<open>u\<close> owns it or is in its \<^verbatim>\<open>shared_with\<close> list,
  and every other command (insert, update, delete) is admitted exactly when \<open>u\<close> owns the
  row. At the level of statements: a select returns the rows of the table that \<open>u\<close> owns or
  is listed on (and that the query's condition keeps), and whatever insert, update or delete
  \<open>u\<close> runs, the rows of other owners are the same afterwards.
\<close>

theorem journal_mood_access:
  assumes rq: "auth_uid rq = Some u"
  shows "(permits journal_entries_policies Select rq d j
            \<longleftrightarrow> je_user_id j = u \<or> listed u (je_shared_with j))
       \<and> (c \<noteq> Select \<longrightarrow> (permits journal_entries_policies c rq d j \<longleftrightarrow> je_user_id j = u))
       \<and> (permits mood_entries_policies Select rq d m
            \<longleftrightarrow> me_user_id m = u \<or> listed u (me_shared_with m))
       \<and> (c \<noteq> Select \<longrightarrow> (permits mood_entries_policies c rq d m \<longleftrightarrow> me_user_id m = u))
       \<and> select_rows journal_entries_table rq wj d
           = Inr (filter (\<lambda>x. (je_user_id x = u \<or> listed u (je_shared_with x)) \<and> wj x)
               (journal_entries d))
       \<and> select_rows mood_entries_table rq wm d
           = Inr (filter (\<lambda>x. (me_user_id x = u \<or> listed u (me_shared_with x)) \<and> wm x)
               (mood_entries d))
       \<and> (stj \<in> {insert_row journal_entries_table rq j,
                  update_rows journal_entries_table rq now wj fj,
                  delete_rows journal_entries_table rq wj} \<longrightarrow>
            filter (\<lambda>x. je_user_id x \<noteq> u) (journal_entries (snd (exec stj d)))
              = filter (\<lambda>x. je_user_id x \<noteq> u) (journal_entries d))
       \<and> (stm \<in> {insert_row mood_entries_table rq m,
                  update_rows mood_entries_table rq now wm fm,
                  delete_rows mood_entries_table rq wm} \<longrightarrow>
            filter (\<lambda>x. me_user_id x \<noteq> u) (mood_entries (snd (exec stm d)))
              = filter (\<lambda>x. me_user_id x \<noteq> u) (mood_entries d))"
proof (intro conjI impI)
  show "permits journal_entries_policies Select rq d j
          \<longleftrightarrow> je_user_id j = u \<or> listed u (je_shared_with j)"
    using rq by (auto simp: journal_select listed_iff)
  show "permits mood_entries_policies Select rq d m
          \<longleftrightarrow> me_user_id m = u \<or> listed u (me_shared_with m)"
    using rq by (auto simp: mood_select listed_iff)
  show "select_rows journal_entries_table rq wj d
           = Inr (filter (\<lambda>x. (je_user_id x = u \<or> listed u (je_shared_with x)) \<and> wj x)
               (journal_entries d))"
    using rq unfolding plain_statements(2)[OF rewrite_plain(1)]
    by (auto simp: journal_entries_table_def journal_select listed_iff intro!: filter_cong)
  show "select_rows mood_entries_table rq wm d
           = Inr (filter (\<lambda>x. (me_user_id x = u \<or> listed u (me_shared_with x)) \<and> wm x)
               (mood_entries d))"
    using rq unfolding plain_statements(2)[OF rewrite_plain(2)]
    by (auto simp: mood_entries_table_def mood_select listed_iff intro!: filter_cong)
next
  assume "c \<noteq> Select"
  then show "permits journal_entries_policies c rq d j \<longleftrightarrow> je_user_id j = u"
    using rq by (auto simp: journal_write)
next
  assume "c \<noteq> Select"
  then show "permits mood_entries_policies c rq d m \<longleftrightarrow> me_user_id m = u"
    using rq by (auto simp: mood_write)
next
  assume "stj \<in> {insert_row journal_entries_table rq j,
                  update_rows journal_entries_table rq now wj fj,
                  delete_rows journal_entries_table rq wj}"
  then show "filter (\<lambda>x. je_user_id x \<noteq> u) (journal_entries (snd (exec stj d)))
              = filter (\<lambda>x. je_user_id x \<noteq> u) (journal_entries d)"
    using journal_frame[OF rq] by auto
next
  assume "stm \<in> {insert_row mood_entries_table rq m,
                  update_rows mood_entries_table rq now wm fm,
                  delete_rows mood_entries_table rq wm}"
  then show "filter (\<lambda>x. me_user_id x \<noteq> u) (mood_entries (snd (exec stm d)))
              = filter (\<lambda>x. me_user_id x \<noteq> u) (mood_entries d)"
    using mood_frame[OF rq] by auto
qed

theorem journal_mood_access_witness:
  "\<not> permits journal_entries_policies Select (as_user bob) journal_db fireworks
   \<and> permits journal_entries_policies Select (as_user bob) journal_db
       (fireworks\<lparr>je_shared_with := Some [Some bob]\<rparr>)
   \<and> \<not> permits journal_entries_policies Update (as_user bob) journal_db
       (fireworks\<lparr>je_shared_with := Some [Some bob]\<rparr>)
   \<and> permits journal_entries_policies Delete (as_user alice) journal_db fireworks
   \<and> \<not> permits mood_entries_policies Delete (as_user bob) journal_db
       (mood_of ''m1'' alice new_year ''Happy'')
   \<and> filter (\<lambda>x. je_user_id x \<noteq> bob) (journal_entries (snd (exec
        (delete_rows journal_entries_table (as_user bob) (\<lambda>x. True)) journal_db)))
       = [fireworks]
   \<and> filter (\<lambda>x. me_user_id x \<noteq> bob) (mood_entries (snd (exec
        (update_rows mood_entries_table (as_user bob) 9 (\<lambda>x. True) (\<lambda>x. x\<lparr>me_mood := ''Sad''\<rparr>))
        journal_db)))
       = [mood_of ''m1'' alice new_year ''Happy'']"
proof -
  have b: "auth_uid (as_user bob) = Some bob" and a: "auth_uid (as_user alice) = Some alice"
    by (simp_all add: as_user_def)
  have s: "delete_rows journal_entries_table (as_user bob) (\<lambda>x. True)
      \<in> {insert_row journal_entries_table (as_user bob) fireworks,
          update_rows journal_entries_table (as_user bob) 9 (\<lambda>x. True) (\<lambda>x. x),
          delete_rows journal_entries_table (as_user bob) (\<lambda>x. True)}"
    "update_rows mood_entries_table (as_user bob) 9 (\<lambda>x. True) (\<lambda>x. x\<lparr>me_mood := ''Sad''\<rparr>)
      \<in> {insert_row mood_entries_table (as_user bob) (mood_of ''m1'' alice new_year ''Happy''),
          update_rows mood_entries_table (as_user bob) 9 (\<lambda>x. True) (\<lambda>x. x\<lparr>me_mood := ''Sad''\<rparr>),
          delete_rows mood_entries_table (as_user bob) (\<lambda>x. True)}"
    by simp_all
  have c: "Delete \<noteq> Select" "Update \<noteq> Select" by simp_all
  note inst = journal_mood_access[where d = journal_db and m = "mood_of ''m1'' alice new_year ''Happy''"
      and wj = "\<lambda>x. True" and wm = "\<lambda>x. True" and now = 9 and fj = "\<lambda>x. x"
      and fm = "\<lambda>x. x\<lparr>me_mood := ''Sad''\<rparr>"
      and stj = "delete_rows journal_entries_table (as_user bob) (\<lambda>x. True)"
      and stm = "update_rows mood_entries_table (as_user bob) 9 (\<lambda>x. True)
                   (\<lambda>x. x\<lparr>me_mood := ''Sad''\<rparr>)"]
  show ?thesis
    using inst[OF b, where j = fireworks and c = Delete]
      inst[OF b, where j = "fireworks\<lparr>je_shared_with := Some [Some bob]\<rparr>" and c = Update]
      inst[OF a, where j = fireworks and c = Delete] s c
    by (simp add: listed_def fireworks_def journal_of_def mood_of_def alice_neq_bob
        journal_db_def)
qed

section \<open>Shared reflections\<close>

lemma reflection_manage:
  "permits shared_reflections_policies c rq d r \<longleftrightarrow>
     auth_role rq = ''service_role'' \<or>
     (c = Select \<and> (\<exists>v. auth_uid rq = Some v \<and> Some v \<in> set (sr_user_ids r)))"
  by (cases c) (auto simp: shared_reflections_policies_def permits_simps)

lemma reflection_same_array_conflict:
  assumes e: "e \<in> set (shared_reflections d)"
    and k: "sr_date e = sr_date r" "sr_user_ids e = sr_user_ids r"
    and s: "auth_role rq = ''service_role''"
  shows "\<exists>n. exec (insert_row shared_reflections_table rq r) d = (Some (Unique_violation n), d)"
proof -
  have ex: "list_ex (\<lambda>b. sr_date r = sr_date b \<and> sr_user_ids r = sr_user_ids b)
              (shared_reflections d)"
    using e k by (auto simp: list_ex_iff intro!: bexI[of _ e])
  show ?thesis
    using ex s unfolding exec_def plain_statements(1)[OF rewrite_plain(3)] insert_unrestricted_def
    by (auto simp: shared_reflections_table_def reflection_manage first_violation_Nil
        first_violation_Cons list_ex_iff)
qed

text \<open>
  Claim C1. The unique constraint of \<^verbatim>\<open>shared_reflections\<close> is on the date and the array
  \<^verbatim>\<open>user_ids\<close>, and two arrays are equal only element by element. A database that holds the
  reflection of the couple (alice, bob) for a date accepts a second reflection for the same
  date whose array names the same two participants in the other order: the table then holds
  two reflections for one couple and one day.
\<close>

theorem reflection_swapped_pair_accepted:
  "exec (insert_row shared_reflections_table service (reflection_of ''r2'' new_year [bob, alice]))
     reflection_db
     = (None, reflection_db\<lparr>shared_reflections :=
          [reflection_of ''r1'' new_year [alice, bob], reflection_of ''r2'' new_year [bob, alice]]\<rparr>)
   \<and> shared_reflections reflection_db = [reflection_of ''r1'' new_year [alice, bob]]
   \<and> sr_date (reflection_of ''r1'' new_year [alice, bob])
       = sr_date (reflection_of ''r2'' new_year [bob, alice])
   \<and> set (sr_user_ids (reflection_of ''r1'' new_year [alice, bob]))
       = set (sr_user_ids (reflection_of ''r2'' new_year [bob, alice]))"
proof -
  have p: "permits shared_reflections_policies Insert service reflection_db
             (reflection_of ''r2'' new_year [bob, alice])"
    by (simp add: reflection_manage service_def)
  have u: "first_violation (td_uniques shared_reflections_table)
             (\<lambda>c. list_ex (c (reflection_of ''r2'' new_year [bob, alice]))
                (shared_reflections reflection_db)) = None"
    by (simp add: shared_reflections_table_def first_violation_Cons first_violation_Nil
        reflection_db_def reflection_of_def alice_neq_bob)
  have f: "first_violation foreign_keys
             (\<lambda>c. \<not> c (reflection_db\<lparr>shared_reflections :=
                shared_reflections reflection_db @ [reflection_of ''r2'' new_year [bob, alice]]\<rparr>))
           = None"
    by (rule foreign_keys_couple) (simp_all add: reflection_db_def couple_db_def)
  have "insert_row shared_reflections_table service (reflection_of ''r2'' new_year [bob, alice])
          reflection_db
        = Inr (reflection_db\<lparr>shared_reflections :=
            shared_reflections reflection_db @ [reflection_of ''r2'' new_year [bob, alice]]\<rparr>)"
    unfolding plain_statements(1)[OF rewrite_plain(3)]
    using p u f
    by (simp add: insert_unrestricted_def shared_reflections_table_def
        first_violation_Nil)
  then show ?thesis
    by (auto simp: exec_def reflection_db_def reflection_of_def)
qed

section \<open>Private notes\<close>

lemma notes_permits:
  "permits private_notes_policies c rq d n \<longleftrightarrow> auth_uid rq = Some (pn_user_id n)"
  by (cases c) (auto simp: private_notes_policies_def permits_simps)

lemma notes_frame:
  "filter (\<lambda>x. auth_uid rq \<noteq> Some (pn_user_id x))
       (private_notes (snd (exec (insert_row private_notes_table rq r) d)))
     = filter (\<lambda>x. auth_uid rq \<noteq> Some (pn_user_id x)) (private_notes d)"
  "filter (\<lambda>x. auth_uid rq \<noteq> Some (pn_user_id x))
       (private_notes (snd (exec (update_rows private_notes_table rq now w f) d)))
     = filter (\<lambda>x. auth_uid rq \<noteq> Some (pn_user_id x)) (private_notes d)"
  "filter (\<lambda>x. auth_uid rq \<noteq> Some (pn_user_id x))
       (private_notes (snd (exec (delete_rows private_notes_table rq w) d)))
     = filter (\<lambda>x. auth_uid rq \<noteq> Some (pn_user_id x)) (private_notes d)"
proof -
  have l: "td_rows private_notes_table (td_put private_notes_table rs d') = rs" for rs d'
    by (simp add: private_notes_table_def)
  have rows: "td_rows private_notes_table = private_notes"
    by (simp add: private_notes_table_def)
  have own: "auth_uid rq = Some (pn_user_id x)"
    if "permits (td_policies private_notes_table) c rq d x" for c x
    using that by (simp add: private_notes_table_def notes_permits)
  show "filter (\<lambda>x. auth_uid rq \<noteq> Some (pn_user_id x))
       (private_notes (snd (exec (insert_row private_notes_table rq r) d)))
     = filter (\<lambda>x. auth_uid rq \<noteq> Some (pn_user_id x)) (private_notes d)"
    using insert_frame[of private_notes_table rq d r "\<lambda>x. auth_uid rq = Some (pn_user_id x)",
        OF l own]
    by (simp only: rows)
  show "filter (\<lambda>x. auth_uid rq \<noteq> Some (pn_user_id x))
       (private_notes (snd (exec (update_rows private_notes_table rq now w f) d)))
     = filter (\<lambda>x. auth_uid rq \<noteq> Some (pn_user_id x)) (private_notes d)"
    using update_frame[of private_notes_table rq d "\<lambda>x. auth_uid rq = Some (pn_user_id x)"
        now w f, OF l own]
    by (simp only: rows)
  show "filter (\<lambda>x. auth_uid rq \<noteq> Some (pn_user_id x))
       (private_notes (snd (exec (delete_rows private_notes_table rq w) d)))
     = filter (\<lambda>x. auth_uid rq \<noteq> Some (pn_user_id x)) (private_notes d)"
    using delete_frame[of private_notes_table rq d "\<lambda>x. auth_uid rq = Some (pn_user_id x)" w,
        OF l own]
    by (simp only: rows)
qed

text \<open>
  Claim C4. For a note authored by \<open>v\<close> and a requester who is anyone but \<open>v\<close> (the owner
  of the annotated entry included, signed in or not): no policy of \<^verbatim>\<open>private_notes\<close> admits
  any command of the requester on the note; a select of the requester never returns a note
  of \<open>v\<close>, whatever its condition (all notes on one entry, say); and after an update, delete
  or insert of the requester the notes of \<open>v\<close> are what they were.
\<close>

theorem private_notes_author_only:
  assumes other: "auth_uid rq \<noteq> Some v"
  shows "(pn_user_id n = v \<longrightarrow> \<not> permits private_notes_policies c rq d n)
       \<and> (\<exists>rows. select_rows private_notes_table rq w d = Inr rows
              \<and> filter (\<lambda>x. pn_user_id x = v) rows = [])
       \<and> (st \<in> {update_rows private_notes_table rq now w f,
                 delete_rows private_notes_table rq w,
                 insert_row private_notes_table rq n} \<longrightarrow>
            filter (\<lambda>x. pn_user_id x = v) (private_notes (snd (exec st d)))
              = filter (\<lambda>x. pn_user_id x = v) (private_notes d))"
proof (intro conjI impI)
  assume "pn_user_id n = v"
  then show "\<not> permits private_notes_policies c rq d n"
    using other by (simp add: notes_permits)
next
  show "\<exists>rows. select_rows private_notes_table rq w d = Inr rows
              \<and> filter (\<lambda>x. pn_user_id x = v) rows = []"
    using other unfolding plain_statements(2)[OF rewrite_plain(5)]
    by (auto simp: private_notes_table_def notes_permits filter_empty_conv)
next
  have n: "auth_uid rq \<noteq> Some (pn_user_id x)" if "pn_user_id x = v" for x
    using that other by simp
  assume "st \<in> {update_rows private_notes_table rq now w f,
                 delete_rows private_notes_table rq w,
                 insert_row private_notes_table rq n}"
  then consider "st = update_rows private_notes_table rq now w f"
    | "st = delete_rows private_notes_table rq w" | "st = insert_row private_notes_table rq n"
    by blast
  then show "filter (\<lambda>x. pn_user_id x = v) (private_notes (snd (exec st d)))
              = filter (\<lambda>x. pn_user_id x = v) (private_notes d)"
  proof cases
    case 1
    then show ?thesis using filter_narrow[OF notes_frame(2) n] by simp
  next
    case 2
    then show ?thesis using filter_narrow[OF notes_frame(3) n] by simp
  next
    case 3
    then show ?thesis using filter_narrow[OF notes_frame(1) n] by simp
  qed
qed

theorem private_notes_author_only_witness:
  "\<not> permits private_notes_policies Select (as_user alice) notes_db
       (note_of ''n1'' bob ''e1'' ''She loved the fireworks.'')
   \<and> filter (\<lambda>x. pn_user_id x = bob)
       (returned (select_rows private_notes_table (as_user alice)
          (\<lambda>x. pn_entry_id x = UUID ''e1'') notes_db))
       = []
   \<and> filter (\<lambda>x. pn_user_id x = bob)
       (private_notes (snd (exec
          (delete_rows private_notes_table (as_user alice) (\<lambda>x. pn_entry_id x = UUID ''e1''))
          notes_db)))
       = [note_of ''n1'' bob ''e1'' ''She loved the fireworks.'']
   \<and> select_rows private_notes_table (as_user bob) (\<lambda>x. pn_entry_id x = UUID ''e1'') notes_db
       = Inr [note_of ''n1'' bob ''e1'' ''She loved the fireworks.'']"
proof -
  have o: "auth_uid (as_user alice) \<noteq> Some bob"
    by (simp add: as_user_def alice_neq_bob)
  have own: "select_rows private_notes_table (as_user bob) (\<lambda>x. pn_entry_id x = UUID ''e1'')
      notes_db = Inr [note_of ''n1'' bob ''e1'' ''She loved the fireworks.'']"
    by (simp add: plain_statements(2)[OF rewrite_plain(5)]) (simp add: private_notes_table_def notes_permits notes_db_def
        note_of_def as_user_def)
  show ?thesis
    using private_notes_author_only[OF o, where d = notes_db
        and n = "note_of ''n1'' bob ''e1'' ''She loved the fireworks.''" and c = Select
        and w = "\<lambda>x. pn_entry_id x = UUID ''e1''"
        and st = "delete_rows private_notes_table (as_user alice) (\<lambda>x. pn_entry_id x = UUID ''e1'')"]
      own
    by (auto simp: notes_db_def note_of_def returned_def)
qed

section \<open>Profiles\<close>

lemma profiles_recursion:
  "select_rows profiles_table rq w d = Inl (Policy_recursion ''profiles'')"
  "update_rows profiles_table rq now w f d = Inl (Policy_recursion ''profiles'')"
  "delete_rows profiles_table rq w d = Inl (Policy_recursion ''profiles'')"
  by (simp_all add: select_rows_def update_rows_def delete_rows_def rewrite_profiles)

lemma regenerate_as_recursion:
  "regenerate_as rq d rnd k code = Some (Inl (Policy_recursion ''profiles''))"
  by (subst regenerate_as.simps) (simp add: profiles_recursion)

lemma insert_profile_cases:
  "insert_profile rq rnd k new d =
     (if p_invite_code new = None then Some (Inl (Policy_recursion ''profiles''))
      else Some (insert_row profiles_table rq new d))"
  by (simp add: insert_profile_def set_invite_code_as_def regenerate_as_recursion)

text \<open>
  Claim C5. The select policy of \<^verbatim>\<open>profiles\<close> reads \<^verbatim>\<open>profiles\<close> in a subquery, so the
  rewriter refuses every statement the policy applies to. In a database where alice and bob
  are linked: alice's select of her own profile fails, bob's select of his partner's profile
  fails, alice's update of her own profile (with its \<^verbatim>\<open>WHERE\<close> clause) fails and leaves
  the database as it was, and the insert by carol of her own profile without an invite code
  fails in the trigger, whose loop selects from \<^verbatim>\<open>profiles\<close>.
\<close>

theorem profiles_policy_recursion:
  "alice_profile \<in> set (profiles couple_db) \<and> p_id alice_profile = alice
   \<and> p_partner_id alice_profile = Some bob
   \<and> select_rows profiles_table (as_user alice) (\<lambda>x. p_id x = alice) couple_db
       = Inl (Policy_recursion ''profiles'')
   \<and> select_rows profiles_table (as_user bob) (\<lambda>x. p_id x = alice) couple_db
       = Inl (Policy_recursion ''profiles'')
   \<and> exec (update_rows profiles_table (as_user alice) 9 (\<lambda>x. p_id x = alice)
        (\<lambda>x. x\<lparr>p_full_name := Some ''Alice''\<rparr>)) couple_db
       = (Some (Policy_recursion ''profiles''), couple_db)
   \<and> p_id carol_signup = carol \<and> p_invite_code carol_signup = None
   \<and> insert_profile (as_user carol) draws 0 carol_signup couple_db
       = Some (Inl (Policy_recursion ''profiles''))"
  by (simp add: profiles_recursion insert_profile_cases exec_def)
     (simp add: alice_profile_def couple_db_def profile_of_def carol_signup_def)

section \<open>Access logs\<close>

lemma logs_permits:
  "permits entry_access_logs_policies c rq d l \<longleftrightarrow>
     (c = Select \<and> (auth_uid rq = Some (al_entry_owner l) \<or> auth_uid rq = Some (al_accessed_by l)))
     \<or> (c = Insert \<and> auth_uid rq = Some (al_accessed_by l))"
  by (cases c) (auto simp: entry_access_logs_policies_def permits_simps)

lemma logs_update_noop:
  "entry_access_logs (snd (exec (update_rows entry_access_logs_table rq now w f) d))
     = entry_access_logs d"
proof -
  have l: "td_rows entry_access_logs_table (td_put entry_access_logs_table rs d') = rs" for rs d'
    by (simp add: entry_access_logs_table_def)
  have rows: "td_rows entry_access_logs_table = entry_access_logs"
    by (simp add: entry_access_logs_table_def)
  have own: "False" if "permits (td_policies entry_access_logs_table) Update rq d x" for x
    using that by (simp add: entry_access_logs_table_def logs_permits)
  show ?thesis
    using update_frame[of entry_access_logs_table rq d "\<lambda>x. False" now w f, OF l own]
    by (simp add: rows)
qed

lemma logs_delete_noop:
  "entry_access_logs (snd (exec (delete_rows entry_access_logs_table rq w) d))
     = entry_access_logs d"
  by (simp add: exec_def plain_statements(3)[OF rewrite_plain(4)])
     (simp add: entry_access_logs_table_def logs_permits)

lemma logs_insert_appends:
  "entry_access_logs (snd (exec (insert_row entry_access_logs_table rq l) d))
     = (if fst (exec (insert_row entry_access_logs_table rq l) d) = None
        then entry_access_logs d @ [l] else entry_access_logs d)"
proof (cases "insert_row entry_access_logs_table rq l d")
  case (Inl e)
  then show ?thesis by (simp add: exec_def)
next
  case (Inr d')
  from insert_row_cases[OF Inr] Inr show ?thesis
    by (simp add: exec_def entry_access_logs_table_def)
qed

text \<open>
  Claim C6. Whoever the requester is, an update or a delete on \<^verbatim>\<open>entry_access_logs\<close> leaves
  the rows of the table exactly as they were (the table has no update and no delete
  policy, so no row is ever admitted); an insert either fails and leaves the rows as they
  were or appends the new row at the end, and it is admitted, and succeeds, only when the
  requester is the row's \<^verbatim>\<open>accessed_by\<close>; a select admits a row exactly when the requester
  is its \<^verbatim>\<open>accessed_by\<close> or its \<^verbatim>\<open>entry_owner\<close>.
\<close>

theorem access_logs_append_only:
  "entry_access_logs (snd (exec (update_rows entry_access_logs_table rq now w f) d))
     = entry_access_logs d
   \<and> entry_access_logs (snd (exec (delete_rows entry_access_logs_table rq w) d))
     = entry_access_logs d
   \<and> \<not> permits entry_access_logs_policies Update rq d l
   \<and> \<not> permits entry_access_logs_policies Delete rq d l
   \<and> (permits entry_access_logs_policies Insert rq d l \<longleftrightarrow> auth_uid rq = Some (al_accessed_by l))
   \<and> entry_access_logs (snd (exec (insert_row entry_access_logs_table rq l) d))
     = (if fst (exec (insert_row entry_access_logs_table rq l) d) = None
        then entry_access_logs d @ [l] else entry_access_logs d)
   \<and> (fst (exec (insert_row entry_access_logs_table rq l) d) = None
        \<longrightarrow> auth_uid rq = Some (al_accessed_by l))
   \<and> (permits entry_access_logs_policies Select rq d l
        \<longleftrightarrow> auth_uid rq = Some (al_accessed_by l) \<or> auth_uid rq = Some (al_entry_owner l))
   \<and> select_rows entry_access_logs_table rq w d
       = Inr (filter (\<lambda>x. (auth_uid rq = Some (al_accessed_by x)
                            \<or> auth_uid rq = Some (al_entry_owner x)) \<and> w x)
                (entry_access_logs d))"
proof (intro conjI impI)
  assume "fst (exec (insert_row entry_access_logs_table rq l) d) = None"
  then obtain d' where "insert_row entry_access_logs_table rq l d = Inr d'"
    by (cases "insert_row entry_access_logs_table rq l d") (auto simp: exec_def)
  from insert_row_cases[OF this] show "auth_uid rq = Some (al_accessed_by l)"
    by (simp add: entry_access_logs_table_def logs_permits)
next
  show "select_rows entry_access_logs_table rq w d
       = Inr (filter (\<lambda>x. (auth_uid rq = Some (al_accessed_by x)
                            \<or> auth_uid rq = Some (al_entry_owner x)) \<and> w x)
                (entry_access_logs d))"
    unfolding plain_statements(2)[OF rewrite_plain(4)]
    by (auto simp: entry_access_logs_table_def logs_permits intro!: filter_cong)
qed (auto simp: logs_update_noop logs_delete_noop logs_insert_appends logs_permits)

theorem access_logs_append_only_witness:
  "entry_access_logs (snd (exec (delete_rows entry_access_logs_table (as_user alice) (\<lambda>x. True))
      notes_db)) = [log_of ''l1'' ''e1'' bob alice]
   \<and> entry_access_logs (snd (exec
      (update_rows entry_access_logs_table (as_user bob) 7 (\<lambda>x. True)
         (\<lambda>x. x\<lparr>al_accessed_at := None\<rparr>)) notes_db)) = [log_of ''l1'' ''e1'' bob alice]
   \<and> exec (insert_row entry_access_logs_table (as_user bob) (log_of ''l2'' ''e1'' bob alice))
        notes_db
      = (None, notes_db\<lparr>entry_access_logs :=
           [log_of ''l1'' ''e1'' bob alice, log_of ''l2'' ''e1'' bob alice]\<rparr>)
   \<and> auth_uid (as_user bob) = Some (al_accessed_by (log_of ''l2'' ''e1'' bob alice))
   \<and> \<not> permits entry_access_logs_policies Insert (as_user alice) notes_db
        (log_of ''l2'' ''e1'' bob alice)
   \<and> permits entry_access_logs_policies Select (as_user alice) notes_db
        (log_of ''l1'' ''e1'' bob alice)
   \<and> \<not> permits entry_access_logs_policies Select (as_user carol) notes_db
        (log_of ''l1'' ''e1'' bob alice)"
proof -
  have p: "permits entry_access_logs_policies Insert (as_user bob) notes_db
             (log_of ''l2'' ''e1'' bob alice)"
    by (simp add: logs_permits as_user_def log_of_def)
  have k: "first_violation (td_checks entry_access_logs_table)
             (\<lambda>c. \<not> c (log_of ''l2'' ''e1'' bob alice)) = None"
    by (simp add: entry_access_logs_table_def first_violation_Cons first_violation_Nil
        log_of_def entry_type_check_def)
  have q: "first_violation (td_uniques entry_access_logs_table)
             (\<lambda>c. list_ex (c (log_of ''l2'' ''e1'' bob alice)) (entry_access_logs notes_db)) = None"
    by (simp add: entry_access_logs_table_def first_violation_Cons first_violation_Nil
        notes_db_def log_of_def)
  have f: "first_violation foreign_keys
             (\<lambda>c. \<not> c (notes_db\<lparr>entry_access_logs :=
                entry_access_logs notes_db @ [log_of ''l2'' ''e1'' bob alice]\<rparr>)) = None"
    by (simp add: foreign_keys_def first_violation_Cons first_violation_Nil notes_db_def
        journal_db_def couple_db_def profile_of_def profile_exists_def log_of_def note_of_def
        journal_of_def mood_of_def)
  have i: "exec (insert_row entry_access_logs_table (as_user bob) (log_of ''l2'' ''e1'' bob alice))
        notes_db
      = (None, notes_db\<lparr>entry_access_logs :=
           [log_of ''l1'' ''e1'' bob alice, log_of ''l2'' ''e1'' bob alice]\<rparr>)"
    unfolding exec_def plain_statements(1)[OF rewrite_plain(4)]
    using p k q f
    by (simp add: insert_unrestricted_def entry_access_logs_table_def)
       (simp add: notes_db_def)
  have l: "entry_access_logs notes_db = [log_of ''l1'' ''e1'' bob alice]"
    by (simp add: notes_db_def)
  show ?thesis
    using access_logs_append_only[where rq = "as_user alice" and d = notes_db
        and w = "\<lambda>x. True" and l = "log_of ''l2'' ''e1'' bob alice"]
      access_logs_append_only[where rq = "as_user bob" and d = notes_db and now = 7
        and w = "\<lambda>x. True" and f = "\<lambda>x. x\<lparr>al_accessed_at := None\<rparr>"
        and l = "log_of ''l2'' ''e1'' bob alice"]
      access_logs_append_only[where rq = "as_user alice" and d = notes_db
        and l = "log_of ''l1'' ''e1'' bob alice"]
      access_logs_append_only[where rq = "as_user carol" and d = notes_db
        and l = "log_of ''l1'' ''e1'' bob alice"]
      i l
    by (simp add: as_user_def log_of_def alice_neq_bob carol_neq)
qed

section \<open>Audio objects\<close>









section \<open>Invite codes are well formed and unique\<close>

lemma length_chars: "length chars = 36"
  by (simp add: chars_def)

lemma pick_char_single:
  assumes "0 \<le> r" "r < 1"
  shows "\<exists>c \<in> set chars. pick_char r = [c]"
proof -
  let ?i = "\<lfloor>r * real (length chars) + 1\<rfloor>"
  have lo: "1 \<le> ?i" using assms by (simp add: le_floor_iff length_chars)
  have "r * 36 + 1 < 37" using assms by simp
  then have hi: "?i < 37" by (simp add: floor_less_iff length_chars)
  from lo hi have "nat (?i - 1) < 36" by linarith
  then have n: "nat (?i - 1) < length chars" by (simp only: length_chars)
  then have "take 1 (drop (nat (?i - 1)) chars) = [chars ! nat (?i - 1)]"
    by (simp add: Cons_nth_drop_Suc[symmetric])
  with lo n show ?thesis
    unfolding pick_char_def substr1_def by (auto intro!: bexI[of _ "chars ! nat (?i - 1)"])
qed

lemma generate_loop_spec:
  assumes "\<forall>j. 0 \<le> rnd j \<and> rnd j < 1"
  shows "length (fst (generate_loop n rnd k res)) = length res + n
       \<and> set (fst (generate_loop n rnd k res)) \<subseteq> set res \<union> set chars
       \<and> snd (generate_loop n rnd k res) = k + n"
proof (induction n arbitrary: k res)
  case 0
  then show ?case by simp
next
  case (Suc n)
  from assms obtain c where c: "c \<in> set chars" "pick_char (rnd k) = [c]"
    using pick_char_single[of "rnd k"] by blast
  with Suc[of "Suc k" "res @ [c]"] show ?case by auto
qed

lemma generate_loop_pos: "snd (generate_loop n rnd k res) = k + n"
  by (induction n arbitrary: k res) auto

lemma generate_invite_code_pos: "snd (generate_invite_code rnd k) = k + 8"
  by (simp add: generate_invite_code_def generate_loop_pos)

lemma attempt_shape:
  assumes "\<forall>j. 0 \<le> rnd j \<and> rnd j < 1"
  shows "length (attempt rnd k j) = 8 \<and> set (attempt rnd k j) \<subseteq> set chars"
  using generate_loop_spec[OF assms, of 8 "k + 8 * j" "[]"]
  by (simp add: attempt_def generate_invite_code_def)

lemma regenerate_step:
  "regenerate d rnd (k + 8 * Suc j) (attempt rnd k j) =
     (if invite_code_taken d (attempt rnd k j)
      then regenerate d rnd (k + 8 * Suc (Suc j)) (attempt rnd k (Suc j))
      else Some (attempt rnd k j, k + 8 * Suc j))"
  by (subst regenerate.simps) (simp add: attempt_def generate_invite_code_pos add.assoc)

lemma regenerate_finds:
  assumes free: "\<not> invite_code_taken d (attempt rnd k n)"
    and coll: "\<forall>j<n. invite_code_taken d (attempt rnd k j)"
    and i: "i \<le> n"
  shows "regenerate d rnd (k + 8 * Suc (n - i)) (attempt rnd k (n - i))
           = Some (attempt rnd k n, k + 8 * Suc n)"
  using i
proof (induction i)
  case 0
  then show ?case using free by (subst regenerate_step) simp
next
  case (Suc i)
  then have "n - Suc i < n" and "Suc (n - Suc i) = n - i" by simp_all
  with Suc coll show ?case
    by (subst regenerate_step) simp
qed

lemma regenerate_never:
  assumes r: "regenerate d rnd p code = Some y"
  shows "\<forall>m. code = attempt rnd k0 m \<and> p = k0 + 8 * Suc m \<longrightarrow>
           (\<exists>n. \<not> invite_code_taken d (attempt rnd k0 n))"
proof (rule regenerate.raw_induct[where P = "\<lambda>d rnd p code y.
          \<forall>m. code = attempt rnd k0 m \<and> p = k0 + 8 * Suc m \<longrightarrow>
            (\<exists>n. \<not> invite_code_taken d (attempt rnd k0 n))", OF _ r])
  fix rg d rnd p code and y :: "string \<times> nat"
  assume IH: "\<And>d rnd p code y. rg d rnd p code = Some y \<Longrightarrow>
          \<forall>m. code = attempt rnd k0 m \<and> p = k0 + 8 * Suc m \<longrightarrow>
            (\<exists>n. \<not> invite_code_taken d (attempt rnd k0 n))"
    and eq: "(if invite_code_taken d code
              then rg d rnd (snd (generate_invite_code rnd p)) (fst (generate_invite_code rnd p))
              else Some (code, p)) = Some y"
  show "\<forall>m. code = attempt rnd k0 m \<and> p = k0 + 8 * Suc m \<longrightarrow>
            (\<exists>n. \<not> invite_code_taken d (attempt rnd k0 n))"
  proof (intro allI impI)
    fix m
    assume a: "code = attempt rnd k0 m \<and> p = k0 + 8 * Suc m"
    show "\<exists>n. \<not> invite_code_taken d (attempt rnd k0 n)"
    proof (cases "invite_code_taken d code")
      case True
      with eq have "rg d rnd (snd (generate_invite_code rnd p))
          (fst (generate_invite_code rnd p)) = Some y"
        by simp
      from IH[OF this] have "\<forall>m. fst (generate_invite_code rnd p) = attempt rnd k0 m \<and>
          snd (generate_invite_code rnd p) = k0 + 8 * Suc m \<longrightarrow>
          (\<exists>n. \<not> invite_code_taken d (attempt rnd k0 n))" .
      moreover have "fst (generate_invite_code rnd p) = attempt rnd k0 (Suc m)"
        using a by (simp add: attempt_def add.assoc)
      moreover have "snd (generate_invite_code rnd p) = k0 + 8 * Suc (Suc m)"
        using a by (simp add: generate_invite_code_pos)
      ultimately show ?thesis by blast
    next
      case False
      with a show ?thesis by blast
    qed
  qed
qed

lemma invite_code_taken_iff:
  "invite_code_taken d c \<longleftrightarrow> (\<exists>p \<in> set (profiles d). p_invite_code p = Some c)"
  by (auto simp: invite_code_taken_def list_ex_iff sql_eq_True)

lemma set_invite_code_unfold:
  "p_invite_code new = None \<Longrightarrow>
   set_invite_code d rnd k new =
     map_option (\<lambda>ck. (new\<lparr>p_invite_code := Some (fst ck)\<rparr>, snd ck))
       (regenerate d rnd (k + 8 * Suc 0) (attempt rnd k 0))"
  by (simp add: set_invite_code_def attempt_def generate_invite_code_pos)

text \<open>
  Claim C9. With every draw of \<^verbatim>\<open>random()\<close> in \<open>[0, 1)\<close>: every code that
  \<^verbatim>\<open>generate_invite_code\<close> returns has length 8 and only characters of \<open>chars\<close>. For a row
  inserted without a code, the trigger draws codes one after another; when the \<open>n\<close>-th is the
  first that no profile holds, the trigger returns (it does not loop forever) and assigns
  exactly that code, which differs from the code of every existing profile, after
  \<open>8 * (n + 1)\<close> draws, and \<^verbatim>\<open>handle_new_user\<close> inserts the profile with that code. When every
  code drawn is taken the loop never ends.
\<close>

theorem invite_code_assigned:
  assumes rnd: "\<forall>j. 0 \<le> rnd j \<and> rnd j < 1" and new: "p_invite_code new = None"
  shows "(\<not> invite_code_taken d (attempt rnd k n)
            \<and> (\<forall>j<n. invite_code_taken d (attempt rnd k j)) \<longrightarrow>
          set_invite_code d rnd k new
            = Some (new\<lparr>p_invite_code := Some (attempt rnd k n)\<rparr>, k + 8 * Suc n)
          \<and> (\<forall>p \<in> set (profiles d). p_invite_code p \<noteq> Some (attempt rnd k n))
          \<and> handle_new_user d rnd k now uid email full_name
            = Some (insert_unrestricted profiles_table
                \<lparr>p_id = uid, p_email = email, p_full_name = full_name,
                 p_invite_code = Some (attempt rnd k n), p_partner_id = None,
                 p_allow_read_receipts = Some True, p_created_at = Some now,
                 p_updated_at = Some now\<rparr> d, k + 8 * Suc n))
       \<and> ((\<forall>j. invite_code_taken d (attempt rnd k j)) \<longrightarrow> set_invite_code d rnd k new = None)
       \<and> length (attempt rnd k j) = 8 \<and> set (attempt rnd k j) \<subseteq> set chars
       \<and> length (fst (generate_invite_code rnd k)) = 8
       \<and> set (fst (generate_invite_code rnd k)) \<subseteq> set chars"
proof (intro conjI impI)
  assume a: "\<not> invite_code_taken d (attempt rnd k n)
            \<and> (\<forall>j<n. invite_code_taken d (attempt rnd k j))"
  then have r: "regenerate d rnd (k + 8 * Suc 0) (attempt rnd k 0)
                  = Some (attempt rnd k n, k + 8 * Suc n)"
    using regenerate_finds[of d rnd k n n] by simp
  show "set_invite_code d rnd k new
            = Some (new\<lparr>p_invite_code := Some (attempt rnd k n)\<rparr>, k + 8 * Suc n)"
    by (simp only: set_invite_code_unfold[OF new] r) simp
  show "\<forall>p \<in> set (profiles d). p_invite_code p \<noteq> Some (attempt rnd k n)"
    using a by (simp add: invite_code_taken_iff)
  show "handle_new_user d rnd k now uid email full_name
            = Some (insert_unrestricted profiles_table
                \<lparr>p_id = uid, p_email = email, p_full_name = full_name,
                 p_invite_code = Some (attempt rnd k n), p_partner_id = None,
                 p_allow_read_receipts = Some True, p_created_at = Some now,
                 p_updated_at = Some now\<rparr> d, k + 8 * Suc n)"
    unfolding handle_new_user_def
    by (subst set_invite_code_unfold) (simp_all only: r, simp_all)
next
  assume all: "\<forall>j. invite_code_taken d (attempt rnd k j)"
  have "regenerate d rnd (k + 8 * Suc 0) (attempt rnd k 0) = None"
  proof (cases "regenerate d rnd (k + 8 * Suc 0) (attempt rnd k 0)")
    case None
    then show ?thesis .
  next
    case (Some y)
    from regenerate_never[OF Some, of k] all show ?thesis by blast
  qed
  then show "set_invite_code d rnd k new = None"
    by (simp only: set_invite_code_unfold[OF new]) simp
next
  show "length (attempt rnd k j) = 8" "set (attempt rnd k j) \<subseteq> set chars"
    using attempt_shape[OF rnd, of k j] by simp_all
  show "length (fst (generate_invite_code rnd k)) = 8"
    "set (fst (generate_invite_code rnd k)) \<subseteq> set chars"
    using attempt_shape[OF rnd, of k 0] by (simp_all add: attempt_def)
qed

lemma draws_range: "\<forall>j. 0 \<le> draws j \<and> draws j < 1"
  by (simp add: draws_def)

lemma draws_attempts:
  "attempt draws 0 0 = ''AAAAAAAA''" "attempt draws 0 1 = ''BBBBBBBB''"
  "attempt draws 0 2 = ''CCCCCCCC''"
  by (simp_all add: attempt_def generate_invite_code_def eval_nat_numeral draws_def
      pick_char_def substr1_def chars_def)

lemma zero_attempts: "attempt (\<lambda>j. 0) k j = ''AAAAAAAA''"
  by (simp add: attempt_def generate_invite_code_def eval_nat_numeral
      pick_char_def substr1_def chars_def)

lemma couple_codes:
  "invite_code_taken couple_db ''AAAAAAAA''" "invite_code_taken couple_db ''BBBBBBBB''"
  "\<not> invite_code_taken couple_db ''CCCCCCCC''"
  by (simp_all add: invite_code_taken_def couple_db_def profile_of_def)

theorem invite_code_assigned_witness:
  "set_invite_code couple_db draws 0 carol_signup
     = Some (carol_signup\<lparr>p_invite_code := Some ''CCCCCCCC''\<rparr>, 24)
   \<and> attempt draws 0 0 = ''AAAAAAAA'' \<and> attempt draws 0 1 = ''BBBBBBBB''
   \<and> \<not> invite_code_taken couple_db ''CCCCCCCC''
   \<and> set_invite_code couple_db (\<lambda>j. 0) 0 carol_signup = None"
proof -
  have n: "p_invite_code carol_signup = None"
    by (simp add: carol_signup_def)
  have "invite_code_taken couple_db (attempt draws 0 j)" if "j < 2" for j
  proof -
    from that have "j = 0 \<or> j = 1" by auto
    then show ?thesis using draws_attempts(1,2) couple_codes(1,2) by auto
  qed
  then have h: "\<not> invite_code_taken couple_db (attempt draws 0 2)
      \<and> (\<forall>j<2. invite_code_taken couple_db (attempt draws 0 j))"
    by (simp add: draws_attempts couple_codes)
  have z: "\<forall>j. (0::real) \<le> 0 \<and> (0::real) < 1" by simp
  have a: "\<forall>j. invite_code_taken couple_db (attempt (\<lambda>j. 0) 0 j)"
    by (simp add: zero_attempts couple_codes)
  have s: "attempt draws 0 (Suc 0) = ''BBBBBBBB''"
    using draws_attempts(2) by simp
  show ?thesis
    using invite_code_assigned[OF draws_range n, where d = couple_db and k = 0 and n = 2
        and j = 0 and now = 5 and uid = carol and email = "''carol@example.org''"
        and full_name = None] h
      invite_code_assigned[OF z n, where d = couple_db and k = 0 and n = 0
        and j = 0 and now = 5 and uid = carol and email = "''carol@example.org''"
        and full_name = None] a
    by (simp add: draws_attempts couple_codes s)
qed

section \<open>The save handler\<close>

lemma trim_empty_iff: "trim s = [] \<longleftrightarrow> list_all js_whitespace s"
proof -
  have "dropWhile js_whitespace (rev (dropWhile js_whitespace s)) = []
          \<longleftrightarrow> dropWhile js_whitespace s = []"
  proof
    assume a: "dropWhile js_whitespace (rev (dropWhile js_whitespace s)) = []"
    show "dropWhile js_whitespace s = []"
    proof (rule ccontr)
      assume n: "dropWhile js_whitespace s \<noteq> []"
      then have "\<not> js_whitespace (hd (dropWhile js_whitespace s))"
        by (rule hd_dropWhile)
      moreover from n have "hd (dropWhile js_whitespace s) \<in> set (rev (dropWhile js_whitespace s))"
        by simp
      ultimately show False using a by (auto simp: dropWhile_eq_Nil_conv)
    qed
  next
    assume "dropWhile js_whitespace s = []"
    then show "dropWhile js_whitespace (rev (dropWhile js_whitespace s)) = []"
      by (simp only: rev.simps dropWhile.simps)
  qed
  then show ?thesis
    by (simp add: trim_def dropWhile_eq_Nil_conv list_all_iff)
qed

lemma and_then_simps:
  "fst (and_then x f) = fst (f (fst x))" "snd (and_then x f) = snd x @ snd (f (fst x))"
  by (simp_all add: and_then_def)

lemma requests_append: "requests (xs @ ys) = requests xs @ requests ys"
  by (induction xs rule: requests.induct) auto

lemma alerts_append: "alerts (xs @ ys) = alerts xs @ alerts ys"
  by (induction xs rule: alerts.induct) auto

lemma settle_requests:
  "requests (snd (fetchStats_settle e s)) = []"
  "requests (snd (fetchCalendarData_settle e s)) = []"
  by (simp_all add: fetchStats_settle_def fetchCalendarData_settle_def split: http_result.splits)

lemma save_done_requests:
  "requests (snd (save_done e s)) = [fetchStats_request e, fetchCalendarData_request e]"
  by (simp add: save_done_def and_then_simps requests_append settle_requests)

lemma save_requests:
  "requests (snd (saveJournalEntry e s)) =
     (if trim (journalEntry s) = [] then []
      else journal_request e s #
        (case net e (journal_request e s) of
           Fail err \<Rightarrow> []
         | Ok v \<Rightarrow>
            (if selectedMood s \<noteq> []
             then mood_request e s #
               (case net e (mood_request e s) of
                  Fail err \<Rightarrow> []
                | Ok v \<Rightarrow> [fetchStats_request e, fetchCalendarData_request e])
             else [fetchStats_request e, fetchCalendarData_request e])))"
  by (simp add: saveJournalEntry_def save_failed_def and_then_simps requests_append
      save_done_requests split: http_result.splits)

lemma to_mood_simps:
  "\<not> to_mood e (journal_request e s)" "to_mood e (mood_request e s)"
  "\<not> to_mood e (fetchStats_request e)" "\<not> to_mood e (fetchCalendarData_request e)"
  by (simp_all add: to_mood_def journal_request_def mood_request_def fetchStats_request_def
      fetchCalendarData_request_def utf16_def)

text \<open>
  Claim C10. When the journal text is empty or all white space, \<^verbatim>\<open>saveJournalEntry\<close> returns
  the state it was given and has no effect at all (no request, no dialog, no log), and the
  Save Entry button is disabled. Whenever a request to \<^verbatim>\<open>/api/mood\<close> is among the requests
  the handler sends, a mood is selected (and the text is not blank). When the text is not
  blank the button is enabled and the first request is the journal request; with no mood
  selected no request goes to \<^verbatim>\<open>/api/mood\<close>.
\<close>

theorem save_blank_is_noop:
  "(list_all js_whitespace (journalEntry s) \<longrightarrow>
      saveJournalEntry e s = (s, []) \<and> save_disabled s)
   \<and> (list_ex (to_mood e) (requests (snd (saveJournalEntry e s))) \<longrightarrow>
      selectedMood s \<noteq> [] \<and> \<not> list_all js_whitespace (journalEntry s))
   \<and> (\<not> list_all js_whitespace (journalEntry s) \<longrightarrow>
      \<not> save_disabled s \<and> hd (requests (snd (saveJournalEntry e s))) = journal_request e s
      \<and> (selectedMood s = [] \<longrightarrow>
            filter (to_mood e) (requests (snd (saveJournalEntry e s))) = []))"
proof (intro conjI impI)
  assume "list_all js_whitespace (journalEntry s)"
  then show "saveJournalEntry e s = (s, [])" "save_disabled s"
    by (simp_all add: saveJournalEntry_def save_disabled_def trim_empty_iff)
next
  assume a: "list_ex (to_mood e) (requests (snd (saveJournalEntry e s)))"
  then show "selectedMood s \<noteq> []" "\<not> list_all js_whitespace (journalEntry s)"
    by (auto simp: save_requests to_mood_simps trim_empty_iff
        split: if_splits http_result.splits)
next
  assume b: "\<not> list_all js_whitespace (journalEntry s)"
  then show "\<not> save_disabled s" "hd (requests (snd (saveJournalEntry e s))) = journal_request e s"
    by (simp_all add: save_requests save_disabled_def trim_empty_iff)
  assume "selectedMood s = []"
  then show "filter (to_mood e) (requests (snd (saveJournalEntry e s))) = []"
    by (simp add: save_requests to_mood_simps split: http_result.splits)
qed

lemma written_not_blank:
  "\<not> list_all js_whitespace (journalEntry written)"
  "\<not> list_all js_whitespace (journalEntry written_happy)"
  "selectedMood written = []" "selectedMood written_happy \<noteq> []"
  by (simp_all add: written_def written_happy_def fresh_app_def utf16_def js_whitespace_def)

theorem save_blank_is_noop_witness:
  "saveJournalEntry ok_env (fresh_app\<lparr>journalEntry := [0x20, 0x9, 0xA0]\<rparr>)
     = (fresh_app\<lparr>journalEntry := [0x20, 0x9, 0xA0]\<rparr>, [])
   \<and> save_disabled (fresh_app\<lparr>journalEntry := [0x20, 0x9, 0xA0]\<rparr>)
   \<and> \<not> save_disabled written
   \<and> hd (requests (snd (saveJournalEntry ok_env written))) = journal_request ok_env written
   \<and> filter (to_mood ok_env) (requests (snd (saveJournalEntry ok_env written))) = []
   \<and> list_ex (to_mood ok_env) (requests (snd (saveJournalEntry ok_env written_happy)))
   \<and> selectedMood written_happy \<noteq> []"
proof -
  have b: "list_all js_whitespace (journalEntry (fresh_app\<lparr>journalEntry := [0x20, 0x9, 0xA0]\<rparr>))"
    by (simp add: js_whitespace_def)
  have m: "list_ex (to_mood ok_env) (requests (snd (saveJournalEntry ok_env written_happy)))"
    using written_not_blank
    by (simp add: save_requests to_mood_simps trim_empty_iff ok_env_def env_of_def)
  show ?thesis
    using save_blank_is_noop[of "fresh_app\<lparr>journalEntry := [0x20, 0x9, 0xA0]\<rparr>" ok_env]
      save_blank_is_noop[of written ok_env] save_blank_is_noop[of written_happy ok_env]
      b m written_not_blank
    by simp
qed

section \<open>Failures in the client\<close>

lemma save_failure_is_generic:
  assumes "\<not> list_all js_whitespace (journalEntry s)"
    and "net e (journal_request e s) = Fail err
         \<or> (net e (journal_request e s) = Ok v \<and> selectedMood s \<noteq> []
             \<and> net e (mood_request e s) = Fail err)"
  shows "fst (saveJournalEntry e s) = s
       \<and> alerts (snd (saveJournalEntry e s)) = [[Lit (utf16 ''Failed to save entry'')]]"
  using assms
  by (auto simp: saveJournalEntry_def save_failed_def trim_empty_iff)

lemma sibling_failures_show_detail:
  "net e (reflection_request e date) = Fail err \<Longrightarrow>
     fst (generateReflection e date s) = s
     \<and> requests (snd (generateReflection e date s)) = [reflection_request e date]
     \<and> alerts (snd (generateReflection e date s))
         = [[Val (js_or (detail_of err) (JStr (utf16 ''Failed to generate reflection'')))]]"
  "trim (inviteCode s) \<noteq> [] \<Longrightarrow> net e (invite_request e s) = Fail err \<Longrightarrow>
     fst (invitePartner e s) = s
     \<and> requests (snd (invitePartner e s)) = [invite_request e s]
     \<and> alerts (snd (invitePartner e s))
         = [[Val (js_or (detail_of err) (JStr (utf16 ''Failed to invite partner'')))]]"
  by (simp_all add: generateReflection_def invitePartner_def invite_failed_def)

lemma detail_of_conflict:
  "detail_of conflict_detail = JStr (utf16 ''Entry already exists for this date'')"
  by (simp add: detail_of_def conflict_detail_def nullish_def utf16_def)

text \<open>
  Claim C7. The backend refuses \<^verbatim>\<open>POST /api/journal\<close> with the detail
  \<^verbatim>\<open>Entry already exists for this date\<close>: \<^verbatim>\<open>saveJournalEntry\<close> shows the fixed text
  \<^verbatim>\<open>Failed to save entry\<close>, not the detail, where \<^verbatim>\<open>generateReflection\<close> on the same failure
  shows the detail. And when the backend accepts the journal request and refuses the mood
  request, the handler reports a failure after the journal request has already been
  accepted.
\<close>

theorem save_failure_hides_detail:
  "net failing_env (journal_request failing_env written) = Fail conflict_detail
   \<and> detail_of conflict_detail = JStr (utf16 ''Entry already exists for this date'')
   \<and> alerts (snd (saveJournalEntry failing_env written))
       = [[Lit (utf16 ''Failed to save entry'')]]
   \<and> alerts (snd (generateReflection failing_env (utf16 ''2024-01-01'') written))
       = [[Val (JStr (utf16 ''Entry already exists for this date''))]]
   \<and> net mood_fails_env (journal_request mood_fails_env written_happy) = Ok JNull
   \<and> net mood_fails_env (mood_request mood_fails_env written_happy) = Fail conflict_detail
   \<and> saveJournalEntry mood_fails_env written_happy
       = (written_happy,
          [Request (journal_request mood_fails_env written_happy),
           Request (mood_request mood_fails_env written_happy),
           Console_error (utf16 ''Failed to save entry:'') conflict_detail,
           Alert [Lit (utf16 ''Failed to save entry'')]])"
proof -
  have n: "net failing_env r = Fail conflict_detail" for r
    by (simp add: failing_env_def env_of_def)
  have t: "js_or (JStr (utf16 ''Entry already exists for this date'')) x
             = JStr (utf16 ''Entry already exists for this date'')" for x
    by (simp add: js_or_def utf16_def)
  have a: "API mood_fails_env = API (env_of (\<lambda>r. Ok JNull))"
    by (simp add: API_def mood_fails_env_def env_of_def)
  have j: "net mood_fails_env (journal_request mood_fails_env written_happy) = Ok JNull"
    using to_mood_simps(1)[of "env_of (\<lambda>r. Ok JNull)" written_happy]
    by (simp add: mood_fails_env_def journal_request_def a[unfolded mood_fails_env_def]) 
       (simp add: env_of_def)
  have m: "net mood_fails_env (mood_request mood_fails_env written_happy) = Fail conflict_detail"
    using to_mood_simps(2)[of "env_of (\<lambda>r. Ok JNull)" written_happy]
    by (simp add: mood_fails_env_def mood_request_def a[unfolded mood_fails_env_def])
       (simp add: env_of_def)
  have s: "saveJournalEntry mood_fails_env written_happy
       = (written_happy,
          [Request (journal_request mood_fails_env written_happy),
           Request (mood_request mood_fails_env written_happy),
           Console_error (utf16 ''Failed to save entry:'') conflict_detail,
           Alert [Lit (utf16 ''Failed to save entry'')]])"
    using written_not_blank j m
    by (simp add: saveJournalEntry_def trim_empty_iff save_failed_def)
  show ?thesis
    using written_not_blank s j m
    by (simp add: n detail_of_conflict t saveJournalEntry_def trim_empty_iff save_failed_def
        generateReflection_def)
qed

end
